theory Spec2Isabelle
  imports Complex_Main "HOL-Library.Sublist"
begin

section \<open>JavaScript strings\<close>

text \<open>
  A JavaScript string is a sequence of UTF-16 code units and \<open>s.length\<close> counts them.
  The model uses \<^typ>\<open>string\<close> with one \<^typ>\<open>char\<close> per code unit, which covers the code
  units U+0000 to U+00FF (ASCII and the Latin-1 letters of the Portuguese card texts);
  code units above U+00FF are outside the model.
\<close>

definition NL :: char where
  "NL = CHR 0x0A"

definition TAB :: char where
  "TAB = CHR 0x09"

definition isWhiteSpace :: "char \<Rightarrow> bool" where
  \<comment> \<open>WhiteSpace and LineTerminator of ECMAScript below U+0100: what \<open>trim\<close>, \<open>parseInt\<close> and the
      regular expression class \<open>\s\<close> skip.\<close>
  "isWhiteSpace c = (c \<in> set [CHR 0x09, CHR 0x0A, CHR 0x0B, CHR 0x0C, CHR 0x0D, CHR 0x20, CHR 0xA0])"

definition trimStart :: "string \<Rightarrow> string" where
  "trimStart s = dropWhile isWhiteSpace s"

definition trimEnd :: "string \<Rightarrow> string" where
  "trimEnd s = rev (dropWhile isWhiteSpace (rev s))"

definition trim :: "string \<Rightarrow> string" where
  "trim s = trimEnd (trimStart s)"

definition startsWith :: "string \<Rightarrow> string \<Rightarrow> bool" where
  "startsWith s p = prefix p s"

fun includes_str :: "string \<Rightarrow> string \<Rightarrow> bool" where
  "includes_str [] p = (p = [])"
| "includes_str (c # cs) p = (prefix p (c # cs) \<or> includes_str cs p)"

definition lowerChar :: "char \<Rightarrow> char" where
  \<comment> \<open>\<open>toLowerCase\<close> on one code unit below U+0100: A-Z and the Latin-1 capitals
      U+00C0-U+00DE (without the multiplication sign U+00D7) move up by 32.\<close>
  "lowerChar c =
     (let n = (of_char c :: nat)
      in if (65 \<le> n \<and> n \<le> 90) \<or> (192 \<le> n \<and> n \<le> 222 \<and> n \<noteq> 215)
         then char_of (n + 32) else c)"

definition toLowerCase :: "string \<Rightarrow> string" where
  "toLowerCase s = map lowerChar s"

fun indexOf :: "string \<Rightarrow> char \<Rightarrow> nat option" where
  \<comment> \<open>\<open>s.indexOf(c)\<close>; \<open>None\<close> is the result -1.\<close>
  "indexOf [] c = None"
| "indexOf (x # xs) c = (if x = c then Some 0 else map_option Suc (indexOf xs c))"

definition lastIndexOf :: "string \<Rightarrow> char \<Rightarrow> nat option" where
  "lastIndexOf s c =
     (case indexOf (rev s) c of None \<Rightarrow> None | Some i \<Rightarrow> Some (length s - 1 - i))"

fun replaceFirst :: "string \<Rightarrow> string \<Rightarrow> string \<Rightarrow> string" where
  \<comment> \<open>\<open>s.replace(pat, rep)\<close> with a string pattern: the first occurrence only.\<close>
  "replaceFirst pat rep [] = (if pat = [] then rep else [])"
| "replaceFirst pat rep (c # cs) =
     (if prefix pat (c # cs) then rep @ drop (length pat) (c # cs)
      else c # replaceFirst pat rep cs)"

definition join :: "string \<Rightarrow> string list \<Rightarrow> string" where
  \<comment> \<open>\<open>parts.join(sep)\<close>\<close>
  "join sep parts = (case parts of [] \<Rightarrow> [] | p # ps \<Rightarrow> p @ concat (map (\<lambda>q. sep @ q) ps))"

subsection \<open>parseInt\<close>

definition digitValue :: "char \<Rightarrow> nat option" where
  "digitValue c =
     (let n = (of_char c :: nat)
      in if 48 \<le> n \<and> n \<le> 57 then Some (n - 48)
         else if 97 \<le> n \<and> n \<le> 122 then Some (n - 87)
         else if 65 \<le> n \<and> n \<le> 90 then Some (n - 55)
         else None)"

definition isRadixDigit :: "nat \<Rightarrow> char \<Rightarrow> bool" where
  "isRadixDigit R c = (case digitValue c of None \<Rightarrow> False | Some d \<Rightarrow> d < R)"

definition radixValue :: "nat \<Rightarrow> string \<Rightarrow> int" where
  "radixValue R ds =
     foldl (\<lambda>acc c. acc * int R + (case digitValue c of None \<Rightarrow> 0 | Some d \<Rightarrow> int d)) 0 ds"

function bitLength :: "int \<Rightarrow> nat" where
  "bitLength n = (if n \<le> 0 then 0 else Suc (bitLength (n div 2)))"
  by pat_completeness auto
termination
  by (relation "measure nat") auto

declare bitLength.simps [simp del]

definition roundToDouble :: "int \<Rightarrow> int" where
  \<comment> \<open>the Number value of a non-negative integer below 2^1024: integers below 2^53 are
      doubles; a larger one is rounded to 53 significant bits, a tie to the even
      neighbour\<close>
  "roundToDouble n =
     (if n < 2 ^ 53 then n
      else (let e = bitLength n - 53;
                q = n div 2 ^ e;
                r = n mod 2 ^ e;
                half = 2 ^ (e - 1)
            in (if r > half \<or> (r = half \<and> odd q) then q + 1 else q) * 2 ^ e))"

definition parseInt :: "string \<Rightarrow> int option" where
  \<comment> \<open>\<open>parseInt(s)\<close> with no radix argument; \<open>None\<close> is NaN. Leading white space is skipped, a
      sign is read, a \<open>0x\<close>/\<open>0X\<close> prefix switches to radix 16, and the longest prefix of digits
      is the value, rounded to a double (values from 2^1024 on, which are Infinity, are
      not modelled).\<close>
  "parseInt s =
     (let S0 = trimStart s;
          neg = (S0 \<noteq> [] \<and> hd S0 = CHR ''-'');
          S1 = (if S0 \<noteq> [] \<and> (hd S0 = CHR ''+'' \<or> hd S0 = CHR ''-'') then tl S0 else S0);
          hex = (prefix ''0x'' S1 \<or> prefix ''0X'' S1);
          R = (if hex then 16 else 10);
          S2 = (if hex then drop 2 S1 else S1);
          Z = takeWhile (isRadixDigit R) S2
      in if Z = [] then None
         else Some (if neg then - roundToDouble (radixValue R Z)
                    else roundToDouble (radixValue R Z)))"

subsection \<open>Numbers\<close>

text \<open>
  A finite Number of the program is the real it denotes. \<open>fl x\<close> is the double an
  arithmetic operation of exact result \<open>x\<close> returns: \<open>x\<close> rounded to the nearest multiple of
  its unit in the last place, a tie to the even neighbour. The unit is \<open>2 ^ ulp_exp x / 2 ^ 1074\<close>:
  53 significant bits for a normal number, \<open>2 ^ -1074\<close> for a subnormal one. Results from
  \<open>2 ^ 1024\<close> on, which are Infinity in the program, are outside the model, and so is the sign
  of zero.
\<close>

definition roundHalfEven :: "real \<Rightarrow> int" where
  "roundHalfEven x =
     (let f = \<lfloor>x\<rfloor>; d = x - of_int f
      in if d < 1 / 2 then f else if 1 / 2 < d then f + 1 else if even f then f else f + 1)"

definition ulp_exp :: "real \<Rightarrow> nat" where
  "ulp_exp x = bitLength \<lfloor>\<bar>x\<bar> * 2 ^ 1074\<rfloor> - 53"

definition fl :: "real \<Rightarrow> real" where
  "fl x = of_int (roundHalfEven (x * 2 ^ 1074 / 2 ^ ulp_exp x)) * 2 ^ ulp_exp x / 2 ^ 1074"

definition repeat :: "string \<Rightarrow> nat \<Rightarrow> string" where
  "repeat s n = concat (replicate n s)"

section \<open>Thrown values\<close>

datatype code = CodeStr string | CodeNum int

record http_response =
  status :: int
  retry_after :: "string option"  \<comment> \<open>\<open>response.headers['retry-after']\<close>\<close>

record error_obj =
  instanceof_Error :: bool
  code :: "code option"
  message :: "string option"
  response :: "http_response option"

datatype thrown = Undefined | Err error_obj

definition TypeError :: "string \<Rightarrow> thrown" where
  \<comment> \<open>The TypeError the engine raises when a property of \<open>undefined\<close> is read.\<close>
  "TypeError prop = Err \<lparr>instanceof_Error = True, code = None,
     message = Some (''Cannot read properties of undefined (reading '' @ [CHR 0x27] @ prop @
       [CHR 0x27] @ '')''),
     response = None\<rparr>"

section \<open>RetryManager (src/utils/logger.ts, lines 84-150)\<close>

record RetryOptions =
  opt_maxAttempts :: "real option"
  opt_baseDelay :: "real option"
  opt_maxDelay :: "real option"
  opt_backoffFactor :: "real option"
  opt_retryCondition :: "(thrown \<Rightarrow> thrown + bool) option"

record RequiredRetryOptions =
  maxAttempts :: real
  baseDelay :: real
  maxDelay :: real
  backoffFactor :: real
  retryCondition :: "thrown \<Rightarrow> thrown + bool"

definition default_retryCondition :: "thrown \<Rightarrow> thrown + bool" where
  \<comment> \<open>\<open>Inl\<close>: the predicate itself throws (reading \<open>error.code\<close> of \<open>undefined\<close>).\<close>
  "default_retryCondition error =
     (case error of
        Undefined \<Rightarrow> Inl (TypeError ''code'')
      | Err e \<Rightarrow>
          Inr (if code e = Some (CodeStr ''ECONNRESET'') \<or> code e = Some (CodeStr ''ETIMEDOUT'') then True
               else if (case response e of None \<Rightarrow> False | Some r \<Rightarrow> status r \<ge> 500) then True
               else if (case response e of None \<Rightarrow> False | Some r \<Rightarrow> status r = 429) then True
               else False))"

definition DEFAULT_OPTIONS :: RequiredRetryOptions where
  "DEFAULT_OPTIONS = \<lparr>maxAttempts = 3, baseDelay = 1000, maxDelay = 10000, backoffFactor = 2,
     retryCondition = default_retryCondition\<rparr>"

definition no_options :: RetryOptions where
  \<comment> \<open>the default argument \<open>options = {}\<close>\<close>
  "no_options = \<lparr>opt_maxAttempts = None, opt_baseDelay = None, opt_maxDelay = None,
     opt_backoffFactor = None, opt_retryCondition = None\<rparr>"

definition merge_options :: "RetryOptions \<Rightarrow> RequiredRetryOptions" where
  \<comment> \<open>\<open>{ ...this.DEFAULT_OPTIONS, ...options }\<close>\<close>
  "merge_options options = \<lparr>
     maxAttempts = (case opt_maxAttempts options of None \<Rightarrow> maxAttempts DEFAULT_OPTIONS | Some v \<Rightarrow> v),
     baseDelay = (case opt_baseDelay options of None \<Rightarrow> baseDelay DEFAULT_OPTIONS | Some v \<Rightarrow> v),
     maxDelay = (case opt_maxDelay options of None \<Rightarrow> maxDelay DEFAULT_OPTIONS | Some v \<Rightarrow> v),
     backoffFactor = (case opt_backoffFactor options of None \<Rightarrow> backoffFactor DEFAULT_OPTIONS | Some v \<Rightarrow> v),
     retryCondition = (case opt_retryCondition options of None \<Rightarrow> retryCondition DEFAULT_OPTIONS | Some v \<Rightarrow> v)\<rparr>"

definition backoffDelay :: "RequiredRetryOptions \<Rightarrow> nat \<Rightarrow> real" where
  \<comment> \<open>\<open>Math.min(opts.baseDelay * Math.pow(opts.backoffFactor, attempt - 1), opts.maxDelay)\<close>,
      the power and the product each rounded to a double.\<close>
  "backoffDelay opts attempt =
     min (fl (baseDelay opts * fl (backoffFactor opts ^ (attempt - 1)))) (maxDelay opts)"

definition totalDelay :: "RequiredRetryOptions \<Rightarrow> nat \<Rightarrow> real \<Rightarrow> real" where
  \<comment> \<open>Lines 126-133, the sample of \<open>Math.random()\<close> given: \<open>Math.random() * 0.1 * delay\<close> is two
      products, from the left, each rounded, the literal \<open>0.1\<close> is the double nearest to one
      tenth, and the sum is rounded.\<close>
  "totalDelay opts attempt rnd =
     (let delay = backoffDelay opts attempt;
          jitter = fl (fl (rnd * fl (1 / 10)) * delay)
      in fl (delay + jitter))"

definition retryAfterHeader :: "error_obj \<Rightarrow> string option" where
  \<comment> \<open>\<open>error.response?.headers?.['retry-after']\<close>; \<open>None\<close> is \<open>undefined\<close>.\<close>
  "retryAfterHeader e = (case response e of None \<Rightarrow> None | Some r \<Rightarrow> retry_after r)"

definition finalDelay :: "RequiredRetryOptions \<Rightarrow> nat \<Rightarrow> real \<Rightarrow> thrown \<Rightarrow> thrown + real option" where
  \<comment> \<open>Lines 126-137. \<open>Inl\<close>: reading \<open>error.response\<close> of \<open>undefined\<close> throws. \<open>Inr None\<close>: the
      delay is NaN, as \<open>Math.max\<close> returns when \<open>parseInt\<close> does. An empty header is falsy.\<close>
  "finalDelay opts attempt rnd error =
     (case error of
        Undefined \<Rightarrow> Inl (TypeError ''response'')
      | Err e \<Rightarrow>
          (case retryAfterHeader e of
             None \<Rightarrow> Inr (Some (totalDelay opts attempt rnd))
           | Some retryAfter \<Rightarrow>
               if retryAfter = [] then Inr (Some (totalDelay opts attempt rnd))
               else (case parseInt retryAfter of
                       None \<Rightarrow> Inr None
                     | Some n \<Rightarrow>
                         Inr (Some (max (fl (real_of_int n * 1000)) (totalDelay opts attempt rnd))))))"

datatype exit_site = ReturnInLoop | ThrowInLoop | ThrowAfterLoop

record 'a run =
  outcome :: "thrown + 'a"            \<comment> \<open>\<open>Inl\<close>: the promise rejects with this value\<close>
  exit_site :: exit_site             \<comment> \<open>the statement that ended the call\<close>
  invocations :: nat                 \<comment> \<open>how often \<open>operation()\<close> was called\<close>
  sleeps :: "real option list"       \<comment> \<open>the arguments of \<open>this.sleep\<close>, in order\<close>

function retry_loop ::
  "RequiredRetryOptions \<Rightarrow> (nat \<Rightarrow> thrown + 'a) \<Rightarrow> (nat \<Rightarrow> real) \<Rightarrow> nat \<Rightarrow> thrown \<Rightarrow> nat \<Rightarrow>
   real option list \<Rightarrow> 'a run" where
  "retry_loop opts operation random attempt lastError calls slept =
     (if real attempt \<le> maxAttempts opts then
        (case operation (Suc calls) of
           Inr v \<Rightarrow> \<lparr>outcome = Inr v, exit_site = ReturnInLoop, invocations = Suc calls, sleeps = slept\<rparr>
         | Inl error \<Rightarrow>
             if real attempt = maxAttempts opts then
               \<lparr>outcome = Inl error, exit_site = ThrowInLoop, invocations = Suc calls, sleeps = slept\<rparr>
             else
               (case retryCondition opts error of
                  Inl t \<Rightarrow>
                    \<lparr>outcome = Inl t, exit_site = ThrowInLoop, invocations = Suc calls, sleeps = slept\<rparr>
                | Inr False \<Rightarrow>
                    \<lparr>outcome = Inl error, exit_site = ThrowInLoop, invocations = Suc calls, sleeps = slept\<rparr>
                | Inr True \<Rightarrow>
                    (case finalDelay opts attempt (random attempt) error of
                       Inl t \<Rightarrow>
                         \<lparr>outcome = Inl t, exit_site = ThrowInLoop, invocations = Suc calls,
                          sleeps = slept\<rparr>
                     | Inr d \<Rightarrow>
                         retry_loop opts operation random (Suc attempt) error (Suc calls)
                           (slept @ [d]))))
      else \<lparr>outcome = Inl lastError, exit_site = ThrowAfterLoop, invocations = calls, sleeps = slept\<rparr>)"
  by pat_completeness auto
termination
  by (relation "measure (\<lambda>(opts, operation, random, attempt, lastError, calls, slept).
        nat \<lfloor>maxAttempts opts\<rfloor> + 1 - attempt)") (auto simp: le_nat_floor Suc_diff_le)

definition execute :: "(nat \<Rightarrow> thrown + 'a) \<Rightarrow> (nat \<Rightarrow> real) \<Rightarrow> RetryOptions \<Rightarrow> 'a run" where
  \<comment> \<open>\<open>operation i\<close> is what the \<open>i\<close>-th call of the wrapped operation does (\<open>Inl\<close>: it rejects),
      \<open>random k\<close> the sample \<open>Math.random()\<close> returns in iteration \<open>k\<close>, in \<open>[0, 1)\<close>.\<close>
  "execute operation random options =
     retry_loop (merge_options options) operation random 1 Undefined 0 []"

section \<open>Regular expressions\<close>

text \<open>
  The regular expressions of the source are given as syntax trees and run by a
  backtracking matcher. \<open>rmatch r st\<close> lists every way \<open>r\<close> can match at the state \<open>st\<close>, in
  the order in which a backtracking engine tries them (a greedy star tries the longest
  repetition first, a lazy star the shortest), so the head of the list is the match
  ECMAScript reports. A repetition does not iterate on an empty match.
\<close>

definition isLineTerminator :: "char \<Rightarrow> bool" where
  "isLineTerminator c = (c = CHR 0x0A \<or> c = CHR 0x0D)"

definition isWordChar :: "char \<Rightarrow> bool" where
  \<comment> \<open>the class \<open>\w\<close>\<close>
  "isWordChar c =
     (let n = (of_char c :: nat)
      in (48 \<le> n \<and> n \<le> 57) \<or> (65 \<le> n \<and> n \<le> 90) \<or> (97 \<le> n \<and> n \<le> 122) \<or> n = 95)"

datatype re =
    Chr char                    \<comment> \<open>a literal character\<close>
  | Cls "char \<Rightarrow> bool"           \<comment> \<open>a character class\<close>
  | Seq re re
  | Star re                     \<comment> \<open>\<open>r*\<close>\<close>
  | LazyStar re                 \<comment> \<open>\<open>r*?\<close>\<close>
  | Group nat re                \<comment> \<open>the capture group with this number\<close>
  | Bol                         \<comment> \<open>\<open>^\<close> under the flag \<open>m\<close>\<close>
  | Eol                         \<comment> \<open>\<open>$\<close> under the flag \<open>m\<close>\<close>

record mstate =
  prev :: "char option"              \<comment> \<open>the character before the current position\<close>
  caps :: "(nat \<times> string) list"     \<comment> \<open>the captures so far, the latest first\<close>
  rest :: string                     \<comment> \<open>the input from the current position on\<close>

fun star_greedy :: "nat \<Rightarrow> (mstate \<Rightarrow> mstate list) \<Rightarrow> mstate \<Rightarrow> mstate list" where
  "star_greedy 0 step st = [st]"
| "star_greedy (Suc n) step st =
     concat (map (star_greedy n step)
       (filter (\<lambda>st'. length (rest st') < length (rest st)) (step st))) @ [st]"

fun star_lazy :: "nat \<Rightarrow> (mstate \<Rightarrow> mstate list) \<Rightarrow> mstate \<Rightarrow> mstate list" where
  "star_lazy 0 step st = [st]"
| "star_lazy (Suc n) step st =
     st # concat (map (star_lazy n step)
       (filter (\<lambda>st'. length (rest st') < length (rest st)) (step st)))"

primrec rmatch :: "re \<Rightarrow> mstate \<Rightarrow> mstate list" where
  "rmatch (Chr c) st =
     (case rest st of
        [] \<Rightarrow> []
      | x # xs \<Rightarrow> if x = c then [st\<lparr>prev := Some x, rest := xs\<rparr>] else [])"
| "rmatch (Cls p) st =
     (case rest st of
        [] \<Rightarrow> []
      | x # xs \<Rightarrow> if p x then [st\<lparr>prev := Some x, rest := xs\<rparr>] else [])"
| "rmatch (Seq a b) st = concat (map (rmatch b) (rmatch a st))"
| "rmatch (Star a) st = star_greedy (length (rest st)) (rmatch a) st"
| "rmatch (LazyStar a) st = star_lazy (length (rest st)) (rmatch a) st"
| "rmatch (Group i a) st =
     map (\<lambda>st'. st'\<lparr>caps := (i, take (length (rest st) - length (rest st')) (rest st)) # caps st'\<rparr>)
       (rmatch a st)"
| "rmatch Bol st =
     (case prev st of None \<Rightarrow> [st] | Some c \<Rightarrow> if isLineTerminator c then [st] else [])"
| "rmatch Eol st =
     (case rest st of [] \<Rightarrow> [st] | c # cs \<Rightarrow> if isLineTerminator c then [st] else [])"

definition Plus :: "re \<Rightarrow> re" where
  \<comment> \<open>\<open>r+\<close>\<close>
  "Plus r = Seq r (Star r)"

fun Lit :: "string \<Rightarrow> re" where
  \<comment> \<open>a sequence of literal characters\<close>
  "Lit [] = Star (Cls (\<lambda>c. False))"
| "Lit [c] = Chr c"
| "Lit (c # cs) = Seq (Chr c) (Lit cs)"

definition OneOf :: "string \<Rightarrow> re" where
  \<comment> \<open>\<open>[...]\<close>\<close>
  "OneOf cs = Cls (\<lambda>c. c \<in> set cs)"

datatype tpart = T string | Ref nat  \<comment> \<open>replacement text: literal parts and \<open>$n\<close>\<close>

definition capture :: "mstate \<Rightarrow> nat \<Rightarrow> string" where
  "capture m i = (case map_of (caps m) i of None \<Rightarrow> [] | Some s \<Rightarrow> s)"

fun expand :: "tpart list \<Rightarrow> mstate \<Rightarrow> string" where
  "expand [] m = []"
| "expand (T s # ps) m = s @ expand ps m"
| "expand (Ref i # ps) m = capture m i @ expand ps m"

function replaceAll :: "re \<Rightarrow> tpart list \<Rightarrow> char option \<Rightarrow> string \<Rightarrow> string" where
  \<comment> \<open>\<open>s.replace(/r/g, t)\<close>, from a position whose preceding character is \<open>p\<close>: the leftmost
      match is replaced and the scan goes on behind it; after an empty match the next
      character is copied.\<close>
  "replaceAll r t p s =
     (case rmatch r \<lparr>prev = p, caps = [], rest = s\<rparr> of
        [] \<Rightarrow> (case s of [] \<Rightarrow> [] | c # cs \<Rightarrow> c # replaceAll r t (Some c) cs)
      | m # ms \<Rightarrow>
          if length (rest m) < length s
          then expand t m @ replaceAll r t (prev m) (rest m)
          else expand t m @ (case s of [] \<Rightarrow> [] | c # cs \<Rightarrow> c # replaceAll r t (Some c) cs))"
  by pat_completeness auto
termination
  by (relation "measure (\<lambda>(r, t, p, s). length s)") auto

fun exec :: "re \<Rightarrow> char option \<Rightarrow> string \<Rightarrow> mstate option" where
  \<comment> \<open>\<open>s.match(/r/)\<close>: the match at the leftmost position that has one.\<close>
  "exec r p [] =
     (case rmatch r \<lparr>prev = p, caps = [], rest = []\<rparr> of [] \<Rightarrow> None | m # ms \<Rightarrow> Some m)"
| "exec r p (c # cs) =
     (case rmatch r \<lparr>prev = p, caps = [], rest = c # cs\<rparr> of
        [] \<Rightarrow> exec r (Some c) cs
      | m # ms \<Rightarrow> Some m)"

section \<open>GoogleDocsClient (src/modules/gdocs.ts)\<close>

subsection \<open>Whitespace clean-up and title injection (lines 204-219 and 410-427)\<close>

definition re_newlines3 :: re where
  \<comment> \<open>\<open>/\n{3,}/g\<close>\<close>
  "re_newlines3 = Seq (Chr NL) (Seq (Chr NL) (Seq (Chr NL) (Star (Chr NL))))"

definition re_blanks :: re where
  \<comment> \<open>\<open>/[ \t]+/g\<close>\<close>
  "re_blanks = Plus (OneOf [CHR '' '', TAB])"

definition re_newline_blanks :: re where
  \<comment> \<open>\<open>/\n[ \t]+/g\<close>\<close>
  "re_newline_blanks = Seq (Chr NL) (Plus (OneOf [CHR '' '', TAB]))"

definition cleanup :: "string \<Rightarrow> string" where
  \<comment> \<open>the three replacements and the \<open>trim\<close> that both normalizers start with
      (lines 208-213 and 414-419)\<close>
  "cleanup text =
     trim (replaceAll re_newline_blanks [T [NL]] None
       (replaceAll re_blanks [T '' ''] None
         (replaceAll re_newlines3 [T [NL, NL]] None text)))"

record doc_content =
  title :: string
  textOf :: string   \<comment> \<open>the field \<open>text\<close>\<close>

definition normalizeContent :: "doc_content \<Rightarrow> string" where
  "normalizeContent content = ''# '' @ title content @ [NL, NL] @ cleanup (textOf content)"

definition normalizeMarkdownContent :: "string \<Rightarrow> string \<Rightarrow> string" where
  "normalizeMarkdownContent content title' =
     (let normalized = cleanup content
      in if \<not> startsWith normalized (''# '' @ title') then ''# '' @ title' @ [NL, NL] @ normalized
         else normalized)"

subsection \<open>Permission errors (lines 280-289)\<close>

definition message_includes :: "error_obj \<Rightarrow> string \<Rightarrow> bool" where
  \<comment> \<open>\<open>error?.message?.toLowerCase().includes(phrase)\<close>\<close>
  "message_includes e phrase =
     (case message e of None \<Rightarrow> False | Some m \<Rightarrow> includes_str (toLowerCase m) phrase)"

definition isPermissionError :: "thrown \<Rightarrow> bool" where
  "isPermissionError error =
     (case error of
        Undefined \<Rightarrow> False
      | Err e \<Rightarrow>
          if (case response e of None \<Rightarrow> False | Some r \<Rightarrow> status r = 403) then True
          else if code e = Some (CodeNum 403) then True
          else if message_includes e ''permission denied'' then True
          else if message_includes e ''access denied'' then True
          else if message_includes e ''forbidden'' then True
          else if message_includes e ''insufficient permissions'' then True
          else False)"

subsection \<open>The document tree walker (lines 116-202)\<close>

text \<open>
  A node of the document tree is an object on which \<open>processElement\<close> probes the fields
  \<open>textRun\<close>, \<open>paragraph\<close>, \<open>table\<close>, \<open>list\<close> and \<open>elements\<close>; each may be absent (\<open>None\<close>), and a
  child position may hold no node at all (\<open>None\<close> in a list of children).
\<close>

datatype element =
  Element
    (textRun : "string option option")
    (paragraphOf : "paragraph_node option")
    (tableOf : "table_node option")
    (listOf : "list_node option")
    (elements : "element option list option")
and paragraph_node =
  Paragraph
    (p_elements : "element option list option")
    (namedStyleType : "string option")
    (bullet : bool)
and table_node =
  Table (tableRows : "tableRow list option")
and tableRow =
  TableRow (tableCells : "tableCell list option")
and tableCell =
  TableCell (cell_content : "element option list option")
and list_node =
  ListNode (nestingLevels : "int option list option")

text \<open>
  \<open>textRun\<close> holds the \<open>content\<close> of the run when the node has a text run. \<open>paragraphOf\<close>,
  \<open>tableOf\<close> and \<open>listOf\<close> are the fields \<open>paragraph\<close>, \<open>table\<close> and \<open>list\<close>. \<open>namedStyleType\<close>
  is \<open>paragraphStyle?.namedStyleType\<close>, and \<open>nestingLevels\<close> is
  \<open>listProperties?.nestingLevels\<close> with the \<open>nestingLevel\<close> of each entry.
\<close>

function showDigits :: "int \<Rightarrow> string" where
  \<comment> \<open>the decimal numeral of a non-negative integer\<close>
  "showDigits n =
     (if n < 10 then [char_of (48 + n)] else showDigits (n div 10) @ [char_of (48 + n mod 10)])"
  by pat_completeness auto
termination
  by (relation "measure nat") auto

declare showDigits.simps [simp del]

definition showInt :: "int \<Rightarrow> string" where
  "showInt k = (if k < 0 then CHR ''-'' # showDigits (- k) else showDigits k)"

definition RangeError :: "int \<Rightarrow> thrown" where
  \<comment> \<open>what \<open>String.prototype.repeat\<close> throws on a negative count\<close>
  "RangeError k = Err \<lparr>instanceof_Error = True, code = None,
     message = Some (''Invalid count value: '' @ showInt k), response = None\<rparr>"

definition repeat_count :: "string \<Rightarrow> int option \<Rightarrow> thrown + string" where
  \<comment> \<open>\<open>s.repeat(n)\<close>: NaN (\<open>None\<close>) counts as 0, a negative count throws.\<close>
  "repeat_count s n =
     (case n of
        None \<Rightarrow> Inr []
      | Some k \<Rightarrow> if k < 0 then Inl (RangeError k) else Inr (repeat s (nat k)))"

definition mapE :: "('a \<Rightarrow> 'b) \<Rightarrow> thrown + 'a \<Rightarrow> thrown + 'b" where
  \<comment> \<open>go on with the value unless an exception is under way\<close>
  "mapE f r = (case r of Inl t \<Rightarrow> Inl t | Inr x \<Rightarrow> Inr (f x))"

definition consE :: "thrown + 'a \<Rightarrow> thrown + 'a list \<Rightarrow> thrown + 'a list" where
  \<comment> \<open>one step of \<open>array.map(f)\<close>: the earlier exception wins\<close>
  "consE r rs =
     (case r of
        Inl t \<Rightarrow> Inl t
      | Inr x \<Rightarrow> (case rs of Inl t \<Rightarrow> Inl t | Inr xs \<Rightarrow> Inr (x # xs)))"

definition appendE :: "thrown + string \<Rightarrow> thrown + string \<Rightarrow> thrown + string" where
  \<comment> \<open>\<open>content += ...\<close> twice in a row: the earlier exception wins\<close>
  "appendE r1 r2 =
     (case r1 of
        Inl t \<Rightarrow> Inl t
      | Inr x \<Rightarrow> (case r2 of Inl t \<Rightarrow> Inl t | Inr y \<Rightarrow> Inr (x @ y)))"

definition heading_prefix :: "string option \<Rightarrow> thrown + string" where
  \<comment> \<open>lines 141-147: what is put before the text of a paragraph with this style\<close>
  "heading_prefix style' =
     (case style' of
        None \<Rightarrow> Inr []
      | Some style \<Rightarrow>
          if style \<noteq> [] \<and> startsWith style ''HEADING_''
          then mapE (\<lambda>hashes. hashes @ '' '')
                 (repeat_count ''#'' (parseInt (replaceFirst ''HEADING_'' [] style)))
          else Inr [])"

definition decorate :: "thrown + string \<Rightarrow> string option \<Rightarrow> bool \<Rightarrow> thrown + string" where
  \<comment> \<open>lines 140-154, once the children of the paragraph are flattened: the heading marker,
      then the bullet marker in front of it, then the newline\<close>
  "decorate children style' bul =
     (case children of
        Inl t \<Rightarrow> Inl t
      | Inr paragraphText \<Rightarrow>
          mapE (\<lambda>hashes. (if bul then ''- '' else []) @ hashes @ paragraphText @ [NL])
            (heading_prefix style'))"

definition list_marker :: "list_node option \<Rightarrow> thrown + string" where
  \<comment> \<open>lines 179-186\<close>
  "list_marker lst =
     (case lst of
        None \<Rightarrow> Inr []
      | Some l \<Rightarrow>
          (case nestingLevels l of
             None \<Rightarrow> Inr []
           | Some levels \<Rightarrow>
               (let level = (case levels of
                               [] \<Rightarrow> 0
                             | lv # lvs \<Rightarrow> (case lv of None \<Rightarrow> 0 | Some k \<Rightarrow> k))
                in mapE (\<lambda>indent. indent @ ''- '') (repeat_count ''  '' (Some level)))))"

definition text_run :: "string option option \<Rightarrow> string" where
  \<comment> \<open>lines 126-128: \<open>element.textRun.content || ''\<close> when there is a text run\<close>
  "text_run tr = (case tr of None \<Rightarrow> [] | Some content \<Rightarrow> (case content of None \<Rightarrow> [] | Some x \<Rightarrow> x))"

definition row_line :: "string list \<Rightarrow> string" where
  \<comment> \<open>line 171\<close>
  "row_line cells = ''| '' @ join '' | '' cells @ '' |'' @ [NL]"

fun processElement :: "element option \<Rightarrow> thrown + string"
  and processChildren :: "element option list option \<Rightarrow> thrown + string"
  and processAll :: "element option list \<Rightarrow> thrown + string list"
  and processParagraph :: "paragraph_node option \<Rightarrow> thrown + string"
  and processTable :: "table_node option \<Rightarrow> thrown + string"
  and processRows :: "tableRow list \<Rightarrow> thrown + string"
  and processCells :: "tableCell list \<Rightarrow> thrown + string list"
  and processCell :: "tableCell \<Rightarrow> thrown + string"
where
  "processElement None = Inr []"
| "processElement (Some (Element tr par tab lst els)) =
     appendE (Inr (text_run tr))
       (appendE (processParagraph par)
         (appendE (processTable tab)
           (appendE (list_marker lst) (processChildren els))))"
| "processChildren None = Inr []"
| "processChildren (Some children) = mapE (join []) (processAll children)"
| "processAll [] = Inr []"
| "processAll (e # es) = consE (processElement e) (processAll es)"
| "processParagraph None = Inr []"
| "processParagraph (Some (Paragraph els style' bul)) = decorate (processChildren els) style' bul"
| "processTable None = Inr []"
| "processTable (Some (Table None)) = Inr []"
| "processTable (Some (Table (Some rows))) = mapE (\<lambda>lines. lines @ [NL]) (processRows rows)"
| "processRows [] = Inr []"
| "processRows (TableRow None # rows) = processRows rows"
| "processRows (TableRow (Some cells) # rows) =
     appendE (mapE row_line (processCells cells)) (processRows rows)"
| "processCells [] = Inr []"
| "processCells (c # cs) = consE (processCell c) (processCells cs)"
| "processCell (TableCell None) = Inr []"
| "processCell (TableCell (Some content)) = mapE trim (mapE (join []) (processAll content))"

record document =
  doc_title :: "string option"                       \<comment> \<open>\<open>document.title\<close>\<close>
  body_content :: "element option list option"       \<comment> \<open>\<open>document.body?.content\<close>\<close>

definition extractContent :: "document \<Rightarrow> thrown + doc_content" where
  "extractContent doc =
     (let title' = (case doc_title doc of None \<Rightarrow> ''Untitled Document''
                    | Some t \<Rightarrow> if t = [] then ''Untitled Document'' else t)
      in mapE (\<lambda>text'. \<lparr>title = title', textOf = text'\<rparr>) (processChildren (body_content doc)))"

subsection \<open>Paths and the file system\<close>

text \<open>
  The working directory is a tree of named entries; a file has a modification time (in
  milliseconds) and a text. Paths are POSIX paths relative to the working directory;
  absolute paths and paths that leave it are not in the tree.
\<close>

datatype fsnode = File int string | Dir "(string \<times> fsnode) list"

fun split_on :: "char \<Rightarrow> string \<Rightarrow> string list" where
  "split_on d [] = [[]]"
| "split_on d (c # cs) =
     (if c = d then [] # split_on d cs
      else (case split_on d cs of [] \<Rightarrow> [[c]] | w # ws \<Rightarrow> (c # w) # ws))"

fun normalizeSegments :: "bool \<Rightarrow> string list \<Rightarrow> string list \<Rightarrow> string list" where
  \<comment> \<open>\<open>normalizeString\<close> of Node's \<open>path\<close>: the segments kept so far are held in reverse.\<close>
  "normalizeSegments allowAboveRoot acc [] = rev acc"
| "normalizeSegments allowAboveRoot acc (seg # segs) =
     (if seg = [] \<or> seg = ''.'' then normalizeSegments allowAboveRoot acc segs
      else if seg = ''..'' then
        (case acc of
           [] \<Rightarrow> normalizeSegments allowAboveRoot (if allowAboveRoot then [seg] else []) segs
         | a # as \<Rightarrow>
             if a = ''..'' then normalizeSegments allowAboveRoot (seg # acc) segs
             else normalizeSegments allowAboveRoot as segs)
      else normalizeSegments allowAboveRoot (seg # acc) segs)"

definition path_normalize :: "string \<Rightarrow> string" where
  \<comment> \<open>\<open>path.normalize\<close>\<close>
  "path_normalize p =
     (let isAbsolute = (p \<noteq> [] \<and> hd p = CHR ''/'');
          trailingSeparator = (p \<noteq> [] \<and> last p = CHR ''/'');
          body = join ''/'' (normalizeSegments (\<not> isAbsolute) [] (split_on CHR ''/'' p));
          body1 = (if body = [] \<and> \<not> isAbsolute then ''.'' else body);
          body2 = (if body \<noteq> [] \<and> trailingSeparator then body1 @ ''/'' else body1)
      in if isAbsolute then CHR ''/'' # body2 else body2)"

definition path_join :: "string \<Rightarrow> string \<Rightarrow> string" where
  \<comment> \<open>\<open>path.join(a, b)\<close>\<close>
  "path_join a b =
     (if a = [] \<and> b = [] then ''.''
      else if a = [] then path_normalize b
      else if b = [] then path_normalize a
      else path_normalize (a @ ''/'' @ b))"

definition extname :: "string \<Rightarrow> string" where
  \<comment> \<open>\<open>path.extname\<close> of a name without separators: from the last dot on, unless that dot
      starts the name or the name is \<open>..\<close>\<close>
  "extname item =
     (case lastIndexOf item CHR ''.'' of
        None \<Rightarrow> []
      | Some i \<Rightarrow> if i = 0 \<or> item = ''..'' then [] else drop i item)"

definition endsWith :: "string \<Rightarrow> string \<Rightarrow> bool" where
  "endsWith s x = suffix x s"

definition basename :: "string \<Rightarrow> string \<Rightarrow> string" where
  \<comment> \<open>\<open>path.basename(p, ext)\<close> for an \<open>ext\<close> without separators: empty when the whole path is
      \<open>ext\<close>; otherwise the last segment, without \<open>ext\<close> when it ends with it and is longer\<close>
  "basename p ext =
     (let segs = filter (\<lambda>seg. seg \<noteq> []) (split_on CHR ''/'' p);
          base = (if segs = [] then [] else last segs)
      in if ext \<noteq> [] \<and> p = ext then []
         else if ext \<noteq> [] \<and> endsWith base ext \<and> base \<noteq> ext
         then take (length base - length ext) base else base)"

fun walk :: "fsnode \<Rightarrow> string list \<Rightarrow> fsnode option" where
  "walk node [] = Some node"
| "walk (File mtime content) (seg # segs) = None"
| "walk (Dir entries) (seg # segs) =
     (case map_of entries seg of None \<Rightarrow> None | Some child \<Rightarrow> walk child segs)"

definition resolve :: "fsnode \<Rightarrow> string \<Rightarrow> fsnode option" where
  \<comment> \<open>the entry a path names, from the working directory \<open>cwd\<close>\<close>
  "resolve cwd p =
     (let segs = normalizeSegments True [] (split_on CHR ''/'' p)
      in if p = [] \<or> hd p = CHR ''/'' \<or> ''..'' \<in> set segs then None else walk cwd segs)"

definition existsSync :: "fsnode \<Rightarrow> string \<Rightarrow> bool" where
  "existsSync cwd p = (resolve cwd p \<noteq> None)"

definition fs_error :: "string \<Rightarrow> string \<Rightarrow> thrown" where
  \<comment> \<open>the error a failing file-system call throws, with its code and message\<close>
  "fs_error c msg = Err \<lparr>instanceof_Error = True, code = Some (CodeStr c),
     message = Some (c @ '': '' @ msg), response = None\<rparr>"

definition quoted :: "string \<Rightarrow> string" where
  \<comment> \<open>a path as the platform prints it in a message\<close>
  "quoted p = [CHR 0x27] @ p @ [CHR 0x27]"

definition readFileSync :: "fsnode \<Rightarrow> string \<Rightarrow> thrown + string" where
  "readFileSync cwd p =
     (case resolve cwd p of
        None \<Rightarrow> Inl (fs_error ''ENOENT'' (''no such file or directory, open '' @ quoted p))
      | Some (Dir entries) \<Rightarrow> Inl (fs_error ''EISDIR'' ''illegal operation on a directory, read'')
      | Some (File mtime content) \<Rightarrow> Inr content)"

definition mtime_of :: "fsnode \<Rightarrow> string \<Rightarrow> int" where
  \<comment> \<open>\<open>statSync(p).mtime.getTime()\<close> of a file that was found by the scan\<close>
  "mtime_of cwd p = (case resolve cwd p of Some (File mtime content) \<Rightarrow> mtime | _ \<Rightarrow> 0)"

subsection \<open>The local fallback (lines 291-408)\<close>

fun scanEntries :: "string \<Rightarrow> (string \<times> fsnode) list \<Rightarrow> string list" where
  \<comment> \<open>the loop of \<open>scanDirectoryForMarkdown(dirPath)\<close> over the entries of the directory\<close>
  "scanEntries dirPath [] = []"
| "scanEntries dirPath ((item, Dir entries) # items) =
     (if startsWith item ''.'' \<or> item = ''node_modules'' then []
      else scanEntries (path_join dirPath item) entries) @ scanEntries dirPath items"
| "scanEntries dirPath ((item, File mtime content) # items) =
     (if toLowerCase (extname item) = ''.md'' then [path_join dirPath item] else [])
       @ scanEntries dirPath items"

definition scanDirectoryForMarkdown :: "fsnode \<Rightarrow> string \<Rightarrow> thrown + string list" where
  "scanDirectoryForMarkdown cwd dirPath =
     (case resolve cwd dirPath of
        None \<Rightarrow>
          Inl (fs_error ''ENOENT'' (''no such file or directory, scandir '' @ quoted dirPath))
      | Some (File mtime content) \<Rightarrow>
          Inl (fs_error ''ENOTDIR'' (''not a directory, scandir '' @ quoted dirPath))
      | Some (Dir entries) \<Rightarrow> Inr (scanEntries dirPath entries))"

definition collectMarkdownFiles :: "fsnode \<Rightarrow> string list \<Rightarrow> string list" where
  \<comment> \<open>lines 360-371: the files pushed for each search path, in order\<close>
  "collectMarkdownFiles cwd searchPaths =
     concat (map (\<lambda>searchPath.
       if \<not> existsSync cwd searchPath then []
       else (case scanDirectoryForMarkdown cwd searchPath of Inl t \<Rightarrow> [] | Inr files \<Rightarrow> files))
       searchPaths)"

definition findMarkdownFiles :: "fsnode \<Rightarrow> string list \<Rightarrow> string list" where
  \<comment> \<open>the stable sort by descending modification time\<close>
  "findMarkdownFiles cwd searchPaths =
     sort_key (\<lambda>f. - mtime_of cwd f) (collectMarkdownFiles cwd searchPaths)"

definition searchPaths :: "string list" where
  "searchPaths = [''.'', ''./docs'', ''./documents'', ''./markdown'', ''./content'', ''./.cache'']"

definition re_heading :: re where
  \<comment> \<open>\<open>/^#\s+(.+)$/m\<close>\<close>
  "re_heading =
     Seq Bol (Seq (Chr CHR ''#'') (Seq (Plus (Cls isWhiteSpace))
       (Seq (Group 1 (Plus (Cls (\<lambda>c. \<not> isLineTerminator c)))) Eol)))"

definition extractTitleFromMarkdown :: "string \<Rightarrow> string option" where
  "extractTitleFromMarkdown content =
     (case exec re_heading None content of
        None \<Rightarrow> None
      | Some headingMatch \<Rightarrow> Some (trim (capture headingMatch 1)))"

datatype path_elem = Key string | Index nat

type_synonym issue = "path_elem list"  \<comment> \<open>the path of a value that breaks a schema\<close>

datatype message =
    Text string                        \<comment> \<open>a message the source or the platform spells out\<close>
  | SyntaxErrorMessage string          \<comment> \<open>the message of the SyntaxError \<open>JSON.parse\<close> throws on this text\<close>
  | ZodErrorMessage "issue list"       \<comment> \<open>the message of a ZodError with issues at these paths\<close>

record 'a ApiResponse =
  success :: bool
  data :: "'a option"
  error :: "message option"

record GoogleDocsContent =
  gd_title :: string          \<comment> \<open>\<open>title\<close>\<close>
  gd_text :: string           \<comment> \<open>\<open>text\<close>\<close>
  normalizedText :: string

record GoogleDocsConfig =
  documentId :: string
  localMarkdownPath :: "string option"

definition error_message :: "thrown \<Rightarrow> message option" where
  \<comment> \<open>\<open>error instanceof Error ? error.message : 'Unknown error'\<close>\<close>
  "error_message thrown_error =
     (case thrown_error of
        Undefined \<Rightarrow> Some (Text ''Unknown error'')
      | Err e \<Rightarrow> if instanceof_Error e then map_option Text (message e)
                 else Some (Text ''Unknown error''))"

definition failure :: "message option \<Rightarrow> 'a ApiResponse" where
  "failure msg = \<lparr>success = False, data = None, error = msg\<rparr>"

definition logError :: "thrown \<Rightarrow> thrown option" where
  \<comment> \<open>\<open>Logger.logError\<close> (logger.ts, lines 61-82) prints; reading \<open>error.response\<close> of
      \<open>undefined\<close> throws\<close>
  "logError thrown_error = (case thrown_error of Undefined \<Rightarrow> Some (TypeError ''response'') | Err e \<Rightarrow> None)"

definition no_files_message :: string where
  "no_files_message = ''No local markdown files found. Please ensure you have a .md file in the current directory or subdirectories, or configure a specific path using localMarkdownPath.''"

definition fallbackToLocalMarkdown ::
  "GoogleDocsConfig \<Rightarrow> fsnode \<Rightarrow> GoogleDocsContent ApiResponse" where
  "fallbackToLocalMarkdown config cwd =
     (let configured =
            (case localMarkdownPath config of
               None \<Rightarrow> None
             | Some p \<Rightarrow> if p \<noteq> [] \<and> existsSync cwd p then Some p else None);
          markdownFiles = findMarkdownFiles cwd searchPaths
      in if configured = None \<and> markdownFiles = [] then failure (Some (Text no_files_message))
         else
           (let selectedFile = (case configured of Some p \<Rightarrow> p | None \<Rightarrow> hd markdownFiles)
            in case readFileSync cwd selectedFile of
                 Inl t \<Rightarrow> failure (error_message t)
               | Inr content \<Rightarrow>
                   (let title' =
                          (case extractTitleFromMarkdown content of
                             None \<Rightarrow> basename selectedFile ''.md''
                           | Some t \<Rightarrow> if t = [] then basename selectedFile ''.md'' else t);
                        normalized = normalizeMarkdownContent content title'
                    in \<lparr>success = True,
                        data = Some \<lparr>gd_title = title', gd_text = content,
                                     normalizedText = normalized\<rparr>,
                        error = None\<rparr>)))"

subsection \<open>readDocument (lines 62-114)\<close>

datatype route = InitFailed | RemoteDocument | LocalFallback | FetchFailed | Rejected

record read_result =
  reply :: "thrown + GoogleDocsContent ApiResponse"   \<comment> \<open>\<open>Inl\<close>: the promise rejects\<close>
  route :: route                                      \<comment> \<open>the statement that ended the call\<close>

definition handle_read_error ::
  "GoogleDocsConfig \<Rightarrow> fsnode \<Rightarrow> thrown \<Rightarrow> read_result" where
  \<comment> \<open>the \<open>catch\<close> block, lines 101-113\<close>
  "handle_read_error config cwd thrown_error =
     (if isPermissionError thrown_error
      then \<lparr>reply = Inr (fallbackToLocalMarkdown config cwd), route = LocalFallback\<rparr>
      else (case logError thrown_error of
              Some t \<Rightarrow> \<lparr>reply = Inl t, route = Rejected\<rparr>
            | None \<Rightarrow> \<lparr>reply = Inr (failure (error_message thrown_error)), route = FetchFailed\<rparr>))"

definition readDocument ::
  "GoogleDocsConfig \<Rightarrow> fsnode \<Rightarrow> unit ApiResponse option \<Rightarrow> (nat \<Rightarrow> thrown + document) \<Rightarrow>
   (nat \<Rightarrow> real) \<Rightarrow> read_result" where
  \<comment> \<open>\<open>init\<close> is the result of \<open>initialize()\<close> when the client is not initialised yet;
      \<open>operation\<close> and \<open>random\<close> are what \<open>RetryManager.execute\<close> runs the fetch with.\<close>
  "readDocument config cwd init operation random =
     (if (case init of None \<Rightarrow> False | Some r \<Rightarrow> \<not> success r) then
        \<lparr>reply = Inr (failure
           (case Option.bind init error of
              None \<Rightarrow> Some (Text ''Failed to initialize Google Docs client'')
            | Some m \<Rightarrow> if m = Text [] then Some (Text ''Failed to initialize Google Docs client'')
                        else Some m)),
         route = InitFailed\<rparr>
      else
        (case outcome (execute operation random no_options) of
           Inl thrown_error \<Rightarrow> handle_read_error config cwd thrown_error
         | Inr doc \<Rightarrow>
             (case extractContent doc of
                Inl thrown_error \<Rightarrow> handle_read_error config cwd thrown_error
              | Inr content \<Rightarrow>
                  \<lparr>reply = Inr \<lparr>success = True,
                     data = Some \<lparr>gd_title = title content, gd_text = textOf content,
                                  normalizedText = normalizeContent content\<rparr>,
                     error = None\<rparr>,
                   route = RemoteDocument\<rparr>)))"

section \<open>JSON.parse\<close>

text \<open>
  \<open>JSON.parse\<close> after the JSON grammar (ECMA-404): a value between optional white space,
  and nothing behind it. A number is kept as the numeral that was read. An escape \<open>\uXXXX\<close>
  is the code unit it names, which is in the model when it is below U+0100. An object
  keeps its members in the order of the text; of two members with one key the later
  counts. The checks \<open>length r < length s\<close> always hold (a value is at least one character
  long); they make the recursion well-founded on sight.
\<close>

datatype json =
    JNull
  | JBool bool
  | JNumber string
  | JString string
  | JArray "json list"
  | JObject "(string \<times> json) list"

definition isJsonWs :: "char \<Rightarrow> bool" where
  "isJsonWs c = (c = CHR 0x20 \<or> c = CHR 0x09 \<or> c = CHR 0x0A \<or> c = CHR 0x0D)"

definition skip_ws :: "string \<Rightarrow> string" where
  "skip_ws s = dropWhile isJsonWs s"

definition isDigit :: "char \<Rightarrow> bool" where
  "isDigit c = (let n = (of_char c :: nat) in 48 \<le> n \<and> n \<le> 57)"

definition hexValue :: "char \<Rightarrow> nat option" where
  "hexValue c =
     (let n = (of_char c :: nat)
      in if 48 \<le> n \<and> n \<le> 57 then Some (n - 48)
         else if 97 \<le> n \<and> n \<le> 102 then Some (n - 87)
         else if 65 \<le> n \<and> n \<le> 70 then Some (n - 55)
         else None)"

definition unescape :: "char \<Rightarrow> char option" where
  "unescape e =
     (if e = CHR 0x22 then Some (CHR 0x22)
      else if e = CHR 0x5C then Some (CHR 0x5C)
      else if e = CHR ''/'' then Some (CHR ''/'')
      else if e = CHR ''b'' then Some (CHR 0x08)
      else if e = CHR ''f'' then Some (CHR 0x0C)
      else if e = CHR ''n'' then Some (CHR 0x0A)
      else if e = CHR ''r'' then Some (CHR 0x0D)
      else if e = CHR ''t'' then Some (CHR 0x09)
      else None)"

definition hex4 :: "string \<Rightarrow> nat option" where
  "hex4 hs =
     (case map hexValue hs of
        [Some a, Some b, Some c, Some d] \<Rightarrow> Some (((a * 16 + b) * 16 + c) * 16 + d)
      | _ \<Rightarrow> None)"

function parse_chars :: "string \<Rightarrow> (string \<times> string) option" where
  "parse_chars [] = None"
| "parse_chars (c # cs) =
     (if c = CHR 0x22 then Some ([], cs)
      else if c = CHR 0x5C then
        (case cs of
           [] \<Rightarrow> None
         | e # es \<Rightarrow>
             if e = CHR ''u'' then
               (case hex4 (take 4 es) of
                  None \<Rightarrow> None
                | Some n \<Rightarrow> map_option (\<lambda>(str, r). (char_of n # str, r)) (parse_chars (drop 4 es)))
             else
               (case unescape e of
                  None \<Rightarrow> None
                | Some x \<Rightarrow> map_option (\<lambda>(str, r). (x # str, r)) (parse_chars es)))
      else if (of_char c :: nat) < 32 then None
      else map_option (\<lambda>(str, r). (c # str, r)) (parse_chars cs))"
  by pat_completeness auto
termination
  by (relation "measure length") auto

definition digits1 :: "string \<Rightarrow> (string \<times> string) option" where
  "digits1 s = (let ds = takeWhile isDigit s in if ds = [] then None else Some (ds, dropWhile isDigit s))"

definition parse_int_part :: "string \<Rightarrow> (string \<times> string) option" where
  "parse_int_part s =
     (case s of
        [] \<Rightarrow> None
      | c # cs \<Rightarrow> if c = CHR ''0'' then Some ([c], cs) else digits1 s)"

definition parse_frac :: "string \<Rightarrow> (string \<times> string) option" where
  "parse_frac s =
     (case s of
        [] \<Rightarrow> Some ([], s)
      | c # cs \<Rightarrow>
          if c = CHR ''.'' then map_option (\<lambda>(ds, r). (c # ds, r)) (digits1 cs) else Some ([], s))"

definition parse_exp :: "string \<Rightarrow> (string \<times> string) option" where
  "parse_exp s =
     (case s of
        [] \<Rightarrow> Some ([], s)
      | c # cs \<Rightarrow>
          if c = CHR ''e'' \<or> c = CHR ''E'' then
            (case cs of
               [] \<Rightarrow> None
             | d # ds \<Rightarrow>
                 if d = CHR ''+'' \<or> d = CHR ''-''
                 then map_option (\<lambda>(x, r). (c # d # x, r)) (digits1 ds)
                 else map_option (\<lambda>(x, r). (c # x, r)) (digits1 cs))
          else Some ([], s))"

definition parse_number :: "string \<Rightarrow> (string \<times> string) option" where
  "parse_number s =
     (let (sign, s1) = (case s of [] \<Rightarrow> ([], s) | c # cs \<Rightarrow> if c = CHR ''-'' then ([c], cs) else ([], s))
      in case parse_int_part s1 of
           None \<Rightarrow> None
         | Some (ip, s2) \<Rightarrow>
             (case parse_frac s2 of
                None \<Rightarrow> None
              | Some (fp, s3) \<Rightarrow>
                  (case parse_exp s3 of
                     None \<Rightarrow> None
                   | Some (ep, s4) \<Rightarrow> Some (sign @ ip @ fp @ ep, s4))))"

definition parse_literal :: "string \<Rightarrow> (json \<times> string) option" where
  "parse_literal s =
     (if prefix ''true'' s then Some (JBool True, drop 4 s)
      else if prefix ''false'' s then Some (JBool False, drop 5 s)
      else if prefix ''null'' s then Some (JNull, drop 4 s)
      else map_option (\<lambda>(lexeme, r). (JNumber lexeme, r)) (parse_number s))"

lemma skip_ws_Cons: "skip_ws s = c # cs \<Longrightarrow> length cs < length s"
proof -
  assume a: "skip_ws s = c # cs"
  have "length (skip_ws s) \<le> length s" unfolding skip_ws_def by (rule length_dropWhile_le)
  with a show ?thesis by simp
qed

function parse_value :: "string \<Rightarrow> (json \<times> string) option"
  and parse_elements :: "string \<Rightarrow> (json list \<times> string) option"
  and parse_members :: "string \<Rightarrow> ((string \<times> json) list \<times> string) option" where
  "parse_value s =
     (case skip_ws s of
        [] \<Rightarrow> None
      | c # cs \<Rightarrow>
          if c = CHR ''{'' then
            (case skip_ws cs of
               [] \<Rightarrow> None
             | d # ds \<Rightarrow>
                 if d = CHR ''}'' then Some (JObject [], skip_ws ds)
                 else map_option (\<lambda>(ms, r). (JObject ms, skip_ws r)) (parse_members cs))
          else if c = CHR ''['' then
            (case skip_ws cs of
               [] \<Rightarrow> None
             | d # ds \<Rightarrow>
                 if d = CHR '']'' then Some (JArray [], skip_ws ds)
                 else map_option (\<lambda>(vs, r). (JArray vs, skip_ws r)) (parse_elements cs))
          else if c = CHR 0x22 then
            map_option (\<lambda>(str, r). (JString str, skip_ws r)) (parse_chars cs)
          else map_option (\<lambda>(v, r). (v, skip_ws r)) (parse_literal (c # cs)))"
| "parse_elements s =
     (case parse_value s of
        None \<Rightarrow> None
      | Some (v, r) \<Rightarrow>
          if length r < length s then
            (case r of
               [] \<Rightarrow> None
             | c # cs \<Rightarrow>
                 if c = CHR '','' then map_option (\<lambda>(vs, r'). (v # vs, r')) (parse_elements cs)
                 else if c = CHR '']'' then Some ([v], cs)
                 else None)
          else None)"
| "parse_members s =
     (case skip_ws s of
        [] \<Rightarrow> None
      | q # ks \<Rightarrow>
          if q = CHR 0x22 then
            (case parse_chars ks of
               None \<Rightarrow> None
             | Some (k, r0) \<Rightarrow>
                 (case skip_ws r0 of
                    [] \<Rightarrow> None
                  | col # r1 \<Rightarrow>
                      if col = CHR '':'' \<and> length r1 < length s then
                        (case parse_value r1 of
                           None \<Rightarrow> None
                         | Some (v, r) \<Rightarrow>
                             if length r < length r1 then
                               (case r of
                                  [] \<Rightarrow> None
                                | c # cs \<Rightarrow>
                                    if c = CHR '','' then
                                      map_option (\<lambda>(ms, r'). ((k, v) # ms, r')) (parse_members cs)
                                    else if c = CHR ''}'' then Some ([(k, v)], cs)
                                    else None)
                             else None)
                      else None))
          else None)"
  by pat_completeness auto
termination
  by (relation "measure (\<lambda>x. case x of Inl s \<Rightarrow> 2 * length s
                                   | Inr (Inl s) \<Rightarrow> 2 * length s + 1
                                   | Inr (Inr s) \<Rightarrow> 2 * length s + 1)")
     (auto dest: skip_ws_Cons)

definition JSON_parse :: "string \<Rightarrow> json option" where
  \<comment> \<open>\<open>None\<close>: a SyntaxError is thrown\<close>
  "JSON_parse input = (case parse_value input of Some (v, []) \<Rightarrow> Some v | _ \<Rightarrow> None)"

definition getProp :: "(string \<times> json) list \<Rightarrow> string \<Rightarrow> json option" where
  \<comment> \<open>\<open>obj[key]\<close>; \<open>None\<close> is \<open>undefined\<close>\<close>
  "getProp members key = map_of (rev members) key"

section \<open>Zod schemas (src/types/index.ts, lines 100-110; gepeto.ts, lines 10-18)\<close>

text \<open>
  A schema takes a value or \<open>undefined\<close> (\<open>None\<close>) and returns the parsed value or the paths
  of the issues; \<open>schema.parse\<close> throws a ZodError exactly in the second case.
\<close>

definition at_path :: "path_elem \<Rightarrow> issue list + 'a \<Rightarrow> issue list" where
  "at_path k r = (case r of Inl issues \<Rightarrow> map (\<lambda>path. k # path) issues | Inr v \<Rightarrow> [])"

definition z_string :: "json option \<Rightarrow> issue list + string" where
  "z_string v = (case v of Some (JString x) \<Rightarrow> Inr x | _ \<Rightarrow> Inl [[]])"

definition z_string_max :: "nat \<Rightarrow> json option \<Rightarrow> issue list + string" where
  \<comment> \<open>\<open>z.string().max(n)\<close>\<close>
  "z_string_max n v =
     (case v of Some (JString x) \<Rightarrow> if length x \<le> n then Inr x else Inl [[]] | _ \<Rightarrow> Inl [[]])"

definition z_number :: "json option \<Rightarrow> issue list + string" where
  "z_number v = (case v of Some (JNumber x) \<Rightarrow> Inr x | _ \<Rightarrow> Inl [[]])"

definition z_enum :: "string list \<Rightarrow> json option \<Rightarrow> issue list + string" where
  "z_enum values v =
     (case v of Some (JString x) \<Rightarrow> if x \<in> set values then Inr x else Inl [[]] | _ \<Rightarrow> Inl [[]])"

definition z_optional ::
  "(json option \<Rightarrow> issue list + 'a) \<Rightarrow> json option \<Rightarrow> issue list + 'a option" where
  "z_optional z v =
     (case v of
        None \<Rightarrow> Inr None
      | Some x \<Rightarrow> (case z (Some x) of Inl issues \<Rightarrow> Inl issues | Inr y \<Rightarrow> Inr (Some y)))"

definition z_array ::
  "(json option \<Rightarrow> issue list + 'a) \<Rightarrow> json option \<Rightarrow> issue list + 'a list" where
  \<comment> \<open>\<open>z.array(z)\<close>: every element is parsed, and one issue anywhere fails the array\<close>
  "z_array z v =
     (case v of
        Some (JArray xs) \<Rightarrow>
          (let rs = map (\<lambda>x. z (Some x)) xs
           in if list_all (\<lambda>r. \<not> isl r) rs then Inr (map projr rs)
              else Inl (concat (map (\<lambda>(i, r). at_path (Index i) r) (enumerate 0 rs))))
      | _ \<Rightarrow> Inl [[]])"

record BDDCard =
  summary :: string
  description :: string
  acceptanceCriteria :: "string list"
  labels :: "string list option"
  priority :: "string option"
  storyPoints :: "string option"
  component :: "string option"
  epicLink :: "string option"
  linkedIssues :: "string list option"

definition priorities :: "string list" where
  "priorities = [''Muito Baixa'', ''Baixa'', ''M'' @ [CHR 0xE9] @ ''dia'', ''Alta'', ''Muito Alta'',
     ''Lowest'', ''Low'', ''Medium'', ''High'', ''Highest'']"

definition BDDCardSchema :: "json option \<Rightarrow> issue list + BDDCard" where
  "BDDCardSchema v =
     (case v of
        Some (JObject members) \<Rightarrow>
          (let r1 = z_string_max 80 (getProp members ''summary'');
               r2 = z_string (getProp members ''description'');
               r3 = z_array z_string (getProp members ''acceptanceCriteria'');
               r4 = z_optional (z_array z_string) (getProp members ''labels'');
               r5 = z_optional (z_enum priorities) (getProp members ''priority'');
               r6 = z_optional z_number (getProp members ''storyPoints'');
               r7 = z_optional z_string (getProp members ''component'');
               r8 = z_optional z_string (getProp members ''epicLink'');
               r9 = z_optional (z_array z_string) (getProp members ''linkedIssues'')
           in if \<not> isl r1 \<and> \<not> isl r2 \<and> \<not> isl r3 \<and> \<not> isl r4 \<and> \<not> isl r5 \<and> \<not> isl r6 \<and>
                 \<not> isl r7 \<and> \<not> isl r8 \<and> \<not> isl r9
              then Inr \<lparr>summary = projr r1, description = projr r2,
                        acceptanceCriteria = projr r3, labels = projr r4, priority = projr r5,
                        storyPoints = projr r6, component = projr r7, epicLink = projr r8,
                        linkedIssues = projr r9\<rparr>
              else Inl (at_path (Key ''summary'') r1 @ at_path (Key ''description'') r2 @
                        at_path (Key ''acceptanceCriteria'') r3 @ at_path (Key ''labels'') r4 @
                        at_path (Key ''priority'') r5 @ at_path (Key ''storyPoints'') r6 @
                        at_path (Key ''component'') r7 @ at_path (Key ''epicLink'') r8 @
                        at_path (Key ''linkedIssues'') r9))
      | _ \<Rightarrow> Inl [[]])"

definition BDDCardsArraySchema :: "json option \<Rightarrow> issue list + BDDCard list" where
  "BDDCardsArraySchema = z_array BDDCardSchema"

definition z_content :: "json option \<Rightarrow> issue list + string" where
  \<comment> \<open>\<open>z.object({ message: z.object({ content: z.string() }) })\<close>, read down to the content\<close>
  "z_content v =
     (case v of
        Some (JObject choice) \<Rightarrow>
          (case getProp choice ''message'' of
             Some (JObject msg) \<Rightarrow>
               (case z_string (getProp msg ''content'') of
                  Inl issues \<Rightarrow> Inl (map (\<lambda>path. Key ''message'' # Key ''content'' # path) issues)
                | Inr c \<Rightarrow> Inr c)
           | _ \<Rightarrow> Inl [[Key ''message'']])
      | _ \<Rightarrow> Inl [[]])"

definition GepetoResponseSchema :: "json option \<Rightarrow> issue list + string list" where
  \<comment> \<open>the contents of the choices, in order\<close>
  "GepetoResponseSchema v =
     (case v of
        Some (JObject members) \<Rightarrow>
          (case z_array z_content (getProp members ''choices'') of
             Inl issues \<Rightarrow> Inl (map (\<lambda>path. Key ''choices'' # path) issues)
           | Inr cs \<Rightarrow> Inr cs)
      | _ \<Rightarrow> Inl [[]])"

section \<open>GepetoClient (src/modules/gepeto.ts)\<close>

definition re_json_fence :: re where
  \<comment> \<open>\<open>/```json\n([\s\S]*?)\n```/\<close>\<close>
  "re_json_fence =
     Seq (Lit (''```json'' @ [NL])) (Seq (Group 1 (LazyStar (Cls (\<lambda>c. True)))) (Lit (NL # ''```'')))"

definition re_fence :: re where
  \<comment> \<open>\<open>/```\n([\s\S]*?)\n```/\<close>\<close>
  "re_fence =
     Seq (Lit (''```'' @ [NL])) (Seq (Group 1 (LazyStar (Cls (\<lambda>c. True)))) (Lit (NL # ''```'')))"

definition candidate :: "string \<Rightarrow> string" where
  \<comment> \<open>lines 76-77: \<open>jsonString\<close>\<close>
  "candidate content =
     (case exec re_json_fence None content of
        Some jsonMatch \<Rightarrow> capture jsonMatch 1
      | None \<Rightarrow>
          (case exec re_fence None content of
             Some jsonMatch \<Rightarrow> capture jsonMatch 1
           | None \<Rightarrow> content))"

definition re_trailing_comma :: re where
  \<comment> \<open>\<open>/,(\s*[}\]])/g\<close>\<close>
  "re_trailing_comma = Seq (Chr CHR '','') (Group 1 (Seq (Star (Cls isWhiteSpace)) (OneOf ''}]'')))"

definition re_unquoted_key :: re where
  \<comment> \<open>\<open>/([{,]\s*)(\w+):/g\<close>\<close>
  "re_unquoted_key =
     Seq (Group 1 (Seq (OneOf ''{,'') (Star (Cls isWhiteSpace))))
       (Seq (Group 2 (Plus (Cls isWordChar))) (Chr CHR '':''))"

definition re_unquoted_value :: re where
  \<comment> \<open>\<open>/:\s*([^",{\[\s][^,}\]]*?)(\s*[,}])/g\<close>\<close>
  "re_unquoted_value =
     Seq (Chr CHR '':'') (Seq (Star (Cls isWhiteSpace))
       (Seq (Group 1 (Seq (Cls (\<lambda>c. c \<notin> set ''\",{['' \<and> \<not> isWhiteSpace c))
                          (LazyStar (Cls (\<lambda>c. c \<notin> set '',}]'')))))
            (Group 2 (Seq (Star (Cls isWhiteSpace)) (OneOf '',}'')))))"

definition re_colon_spacing :: re where
  \<comment> \<open>\<open>/"\s*:\s*"/g\<close>\<close>
  "re_colon_spacing =
     Seq (Chr CHR 0x22) (Seq (Star (Cls isWhiteSpace)) (Seq (Chr CHR '':'')
       (Seq (Star (Cls isWhiteSpace)) (Chr CHR 0x22))))"

definition re_comma_brace :: re where
  \<comment> \<open>\<open>/,\s*}/g\<close>\<close>
  "re_comma_brace = Seq (Chr CHR '','') (Seq (Star (Cls isWhiteSpace)) (Chr CHR ''}''))"

definition re_comma_bracket :: re where
  \<comment> \<open>\<open>/,\s*]/g\<close>\<close>
  "re_comma_bracket = Seq (Chr CHR '','') (Seq (Star (Cls isWhiteSpace)) (Chr CHR '']''))"

definition attemptJsonFix :: "string \<Rightarrow> string" where
  "attemptJsonFix jsonString =
     (let fixed0 = trim jsonString;
          fixed1 = (case indexOf fixed0 CHR ''['' of
                      None \<Rightarrow> fixed0
                    | Some arrayStart \<Rightarrow> if arrayStart > 0 then drop arrayStart fixed0 else fixed0);
          fixed2 = (case lastIndexOf fixed1 CHR '']'' of
                      None \<Rightarrow> fixed1
                    | Some arrayEnd \<Rightarrow>
                        if arrayEnd > 0 \<and> Suc arrayEnd < length fixed1
                        then take (Suc arrayEnd) fixed1 else fixed1)
      in replaceAll re_comma_bracket [T '']''] None
           (replaceAll re_comma_brace [T ''}''] None
             (replaceAll re_colon_spacing [T ''\": \"''] None
               (replaceAll re_unquoted_value [T '': \"'', Ref 1, T ''\"'', Ref 2] None
                 (replaceAll re_unquoted_key [Ref 1, T ''\"'', Ref 2, T ''\":''] None
                   (replaceAll re_trailing_comma [Ref 1] None fixed2))))))"

definition strictParse :: "string \<Rightarrow> message + BDDCard list" where
  \<comment> \<open>\<open>BDDCardsArraySchema.parse(JSON.parse(s))\<close>; \<open>Inl\<close>: the message of the SyntaxError or
      ZodError that is thrown\<close>
  "strictParse s =
     (case JSON_parse s of
        None \<Rightarrow> Inl (SyntaxErrorMessage s)
      | Some parsed \<Rightarrow>
          (case BDDCardsArraySchema (Some parsed) of
             Inl issues \<Rightarrow> Inl (ZodErrorMessage issues)
           | Inr cards \<Rightarrow> Inr cards))"

definition recover :: "string \<Rightarrow> message + BDDCard list" where
  \<comment> \<open>lines 75-88: the strict parse of the candidate and, when it throws, the strict parse
      of the repaired candidate\<close>
  "recover content =
     (let jsonString = candidate content
      in case strictParse jsonString of
           Inr cards \<Rightarrow> Inr cards
         | Inl parseError \<Rightarrow> strictParse (attemptJsonFix jsonString))"

definition generateBDDCards ::
  "(nat \<Rightarrow> thrown + json) \<Rightarrow> (nat \<Rightarrow> real) \<Rightarrow> thrown + BDDCard list ApiResponse" where
  \<comment> \<open>\<open>operation i\<close> is what the \<open>i\<close>-th POST does: it rejects, or resolves with this
      \<open>response.data\<close>. \<open>Inl\<close>: the promise of \<open>generateBDDCards\<close> rejects (\<open>logError\<close> threw).\<close>
  "generateBDDCards operation random =
     (case outcome (execute operation random no_options) of
        Inl thrown_error \<Rightarrow>
          (case logError thrown_error of
             Some t \<Rightarrow> Inl t
           | None \<Rightarrow> Inr (failure (error_message thrown_error)))
      | Inr response_data \<Rightarrow>
          (case GepetoResponseSchema (Some response_data) of
             Inl issues \<Rightarrow> Inr (failure (Some (ZodErrorMessage issues)))
           | Inr contents \<Rightarrow>
               (let content = (case contents of [] \<Rightarrow> [] | c # cs \<Rightarrow> c)
                in if content = [] then Inr (failure (Some (Text ''No content received from Gepeto'')))
                   else (case recover content of
                           Inl m \<Rightarrow> Inr (failure (Some m))
                         | Inr cards \<Rightarrow> Inr \<lparr>success = True, data = Some cards, error = None\<rparr>))))"

definition completion :: "string \<Rightarrow> json" where
  \<comment> \<open>the body of a completion response with one choice of this content\<close>
  "completion content =
     JObject [(''choices'', JArray [JObject [(''message'', JObject [(''content'', JString content)])]])]"

definition err503 :: thrown where
  \<comment> \<open>an HTTP 503 failure without a Retry-After header\<close>
  "err503 = Err \<lparr>instanceof_Error = True, code = None,
     message = Some ''Request failed with status code 503'',
     response = Some \<lparr>status = 503, retry_after = None\<rparr>\<rparr>"

definition err404 :: thrown where
  "err404 = Err \<lparr>instanceof_Error = True, code = None,
     message = Some ''Request failed with status code 404'',
     response = Some \<lparr>status = 404, retry_after = None\<rparr>\<rparr>"

definition err429 :: "string \<Rightarrow> error_obj" where
  \<comment> \<open>an HTTP 429 failure with the given Retry-After header\<close>
  "err429 h = \<lparr>instanceof_Error = True, code = None,
     message = Some ''Request failed with status code 429'',
     response = Some \<lparr>status = 429, retry_after = Some h\<rparr>\<rparr>"

definition permission_phrases :: "string list" where
  "permission_phrases =
     [''permission denied'', ''access denied'', ''forbidden'', ''insufficient permissions'']"

definition permission_class :: "error_obj \<Rightarrow> bool" where
  \<comment> \<open>The permission-class heuristic in the words of the specification: the response status
      is 403, the error code equals 403, or the message contains one of the four phrases
      when letter case is ignored.\<close>
  "permission_class e =
     ((case response e of None \<Rightarrow> False | Some r \<Rightarrow> status r = 403) \<or>
      code e = Some (CodeNum 403) \<or>
      (case message e of
         None \<Rightarrow> False
       | Some m \<Rightarrow> list_ex (\<lambda>phrase. sublist phrase (map lowerChar m)) permission_phrases))"

definition err403 :: error_obj where
  "err403 = \<lparr>instanceof_Error = True, code = Some (CodeNum 403),
     message = Some ''The caller does not have permission'',
     response = Some \<lparr>status = 403, retry_after = None\<rparr>\<rparr>"

definition errNotFound :: error_obj where
  "errNotFound = \<lparr>instanceof_Error = True, code = Some (CodeStr ''ENOTFOUND''),
     message = Some ''getaddrinfo ENOTFOUND docs.googleapis.com'', response = None\<rparr>"

definition docs_layout :: fsnode where
  \<comment> \<open>a working directory that holds only \<open>docs/a.md\<close>\<close>
  "docs_layout = Dir [(''docs'', Dir [(''a.md'', File 1000 ''# A'')])]"

definition sample_config :: GoogleDocsConfig where
  "sample_config = \<lparr>documentId = ''doc-1'', localMarkdownPath = None\<rparr>"

definition text_cell :: "string \<Rightarrow> element option list" where
  \<comment> \<open>the content of a table cell with one paragraph that holds one text run\<close>
  "text_cell s =
     [Some (Element None
        (Some (Paragraph (Some [Some (Element (Some (Some s)) None None None None)]) None False))
        None None None)]"

definition reply_fenced :: string where
  \<comment> \<open>the reply of the JSON repair scenario: prose, then a fenced block tagged \<open>json\<close>\<close>
  "reply_fenced = ''Here you go:'' @ [NL] @ ''```json'' @ [NL] @
     ''[{summary: \"Test\", description: \"d\", acceptanceCriteria: [\"a\"],}]'' @ [NL] @ ''```''"

definition simple_card :: "string \<Rightarrow> BDDCard" where
  "simple_card s = \<lparr>summary = s, description = ''d'', acceptanceCriteria = [''a''],
     labels = None, priority = None, storyPoints = None, component = None, epicLink = None,
     linkedIssues = None\<rparr>"





section \<open>Properties of the retry policy\<close>

lemma merge_no_options: "merge_options no_options = DEFAULT_OPTIONS"
  by (simp add: merge_options_def no_options_def)

lemma accepted_not_undefined: "default_retryCondition e = Inr b \<Longrightarrow> \<exists>x. e = Err x"
  by (cases e) (simp_all add: default_retryCondition_def)

lemma finalDelay_Err: "\<exists>d. finalDelay opts k r (Err x) = Inr d"
  by (simp add: finalDelay_def split: option.splits)

text \<open>
  C3. With the default options, an operation that fails on every call with an error the
  default predicate accepts is called exactly three times, and the call rejects with the
  very value the third call threw. An operation whose first error the predicate rejects
  is called once and the call rejects with that error.
\<close>

theorem execute_rethrows_original_error:
  fixes operation :: "nat \<Rightarrow> thrown + 'a"
  shows "((\<forall>i. \<exists>e. operation i = Inl e \<and> default_retryCondition e = Inr True) \<longrightarrow>
            outcome (execute operation random no_options) = operation 3 \<and>
            invocations (execute operation random no_options) = 3) \<and>
         (operation 1 = Inl e1 \<and> retryCondition (merge_options options) e1 = Inr False \<and>
          1 \<le> maxAttempts (merge_options options) \<longrightarrow>
            outcome (execute operation random options) = Inl e1 \<and>
            invocations (execute operation random options) = 1)"
proof (intro conjI impI)
  assume a: "\<forall>i. \<exists>e. operation i = Inl e \<and> default_retryCondition e = Inr True"
  obtain e1 where e1: "operation (Suc 0) = Inl e1" "default_retryCondition e1 = Inr True"
    using a by blast
  obtain e2 where e2: "operation (Suc (Suc 0)) = Inl e2" "default_retryCondition e2 = Inr True"
    using a by blast
  obtain e3 where e3: "operation (Suc (Suc (Suc 0))) = Inl e3"
    using a by blast
  obtain d1 where d1: "finalDelay DEFAULT_OPTIONS (Suc 0) (random (Suc 0)) e1 = Inr d1"
    using accepted_not_undefined[OF e1(2)] finalDelay_Err by blast
  obtain d2 where d2: "finalDelay DEFAULT_OPTIONS (Suc (Suc 0)) (random (Suc (Suc 0))) e2 = Inr d2"
    using accepted_not_undefined[OF e2(2)] finalDelay_Err by blast
  have m: "maxAttempts DEFAULT_OPTIONS = 3"
      "retryCondition DEFAULT_OPTIONS = default_retryCondition"
    by (simp_all add: DEFAULT_OPTIONS_def)
  have run: "execute operation random no_options =
      \<lparr>outcome = Inl e3, exit_site = ThrowInLoop, invocations = 3, sleeps = [d1, d2]\<rparr>"
    unfolding execute_def merge_no_options
    apply (subst retry_loop.simps)
    apply (simp add: m e1 d1)
    apply (subst retry_loop.simps)
    apply (simp add: m e2 d2)
    apply (subst retry_loop.simps)
    apply (simp add: m e3)
    done
  show "outcome (execute operation random no_options) = operation 3"
    using run e3 by (simp add: eval_nat_numeral)
  show "invocations (execute operation random no_options) = 3"
    using run by simp
next
  assume b: "operation 1 = Inl e1 \<and> retryCondition (merge_options options) e1 = Inr False \<and>
    1 \<le> maxAttempts (merge_options options)"
  then show "outcome (execute operation random options) = Inl e1"
    unfolding execute_def by (subst retry_loop.simps) simp
  from b show "invocations (execute operation random options) = 1"
    unfolding execute_def by (subst retry_loop.simps) simp
qed

theorem execute_rethrows_original_error_witness:
  "default_retryCondition err503 = Inr True \<and>
   outcome (execute (\<lambda>i. Inl err503 :: thrown + unit) (\<lambda>k. 1/2) no_options) = Inl err503 \<and>
   invocations (execute (\<lambda>i. Inl err503 :: thrown + unit) (\<lambda>k. 1/2) no_options) = 3 \<and>
   default_retryCondition err404 = Inr False \<and>
   outcome (execute (\<lambda>i. Inl err404 :: thrown + unit) (\<lambda>k. 1/2) no_options) = Inl err404 \<and>
   invocations (execute (\<lambda>i. Inl err404 :: thrown + unit) (\<lambda>k. 1/2) no_options) = 1"
proof -
  have a: "default_retryCondition err503 = Inr True"
    by (simp add: default_retryCondition_def err503_def)
  have b: "default_retryCondition err404 = Inr False"
    by (simp add: default_retryCondition_def err404_def)
  have c: "retryCondition (merge_options no_options) err404 = Inr False"
      "1 \<le> maxAttempts (merge_options no_options)"
    using b by (simp_all add: merge_no_options DEFAULT_OPTIONS_def)
  show ?thesis
    using a b c
      execute_rethrows_original_error[of "\<lambda>i. Inl err503 :: thrown + unit" "\<lambda>k. 1/2"
        err503 no_options]
      execute_rethrows_original_error[of "\<lambda>i. Inl err404 :: thrown + unit" "\<lambda>k. 1/2"
        err404 no_options]
    by simp
qed

lemma retry_loop_integral_bound:
  "maxAttempts opts = real n \<Longrightarrow> attempt \<le> n \<Longrightarrow>
   exit_site (retry_loop opts operation random attempt lastError calls slept) \<noteq> ThrowAfterLoop"
proof (induction "n - attempt" arbitrary: attempt lastError calls slept)
  case 0
  then have "real attempt = maxAttempts opts" by simp
  then show ?case
    by (subst retry_loop.simps) (simp split: sum.splits)
next
  case (Suc m)
  then have lt: "attempt < n" and le: "Suc attempt \<le> n" and m: "m = n - Suc attempt"
    by simp_all
  have IH: "\<And>lastError calls slept.
      exit_site (retry_loop opts operation random (Suc attempt) lastError calls slept)
        \<noteq> ThrowAfterLoop"
    using Suc.hyps(1)[OF m Suc.prems(1) le] .
  from lt Suc.prems(1) have c: "real attempt \<le> maxAttempts opts" by simp
  show ?case
    apply (subst retry_loop.simps)
    using IH c by (simp split: sum.splits bool.splits)
qed

lemma retry_loop_below_one:
  "maxAttempts opts < 1 \<Longrightarrow> retry_loop opts operation random 1 lastError calls slept =
     \<lparr>outcome = Inl lastError, exit_site = ThrowAfterLoop, invocations = calls, sleeps = slept\<rparr>"
  by (subst retry_loop.simps) simp

text \<open>
  C9, as amended. Called with \<open>maxAttempts\<close> below 1, \<open>execute\<close> never calls the operation and
  rejects, from the statement after the loop, with the uninitialised \<open>lastError\<close>, which is
  \<open>undefined\<close>. When \<open>maxAttempts\<close> is a whole number that is at least 1 (in particular the
  default 3), the statement after the loop is never reached.
\<close>

theorem execute_trailing_throw:
  "(opt_maxAttempts options = Some m \<and> m < 1 \<longrightarrow>
      execute operation random options =
        \<lparr>outcome = Inl Undefined, exit_site = ThrowAfterLoop, invocations = 0, sleeps = []\<rparr>) \<and>
   (opt_maxAttempts options = Some (real n) \<and> 1 \<le> n \<longrightarrow>
      exit_site (execute operation random options) \<noteq> ThrowAfterLoop) \<and>
   (opt_maxAttempts options = None \<longrightarrow>
      exit_site (execute operation random options) \<noteq> ThrowAfterLoop)"
proof (intro conjI impI)
  assume "opt_maxAttempts options = Some m \<and> m < 1"
  then have "maxAttempts (merge_options options) < 1"
    by (simp add: merge_options_def)
  then show "execute operation random options =
        \<lparr>outcome = Inl Undefined, exit_site = ThrowAfterLoop, invocations = 0, sleeps = []\<rparr>"
    unfolding execute_def by (rule retry_loop_below_one)
next
  assume "opt_maxAttempts options = Some (real n) \<and> 1 \<le> n"
  then have "maxAttempts (merge_options options) = real n" "1 \<le> n"
    by (simp_all add: merge_options_def)
  then show "exit_site (execute operation random options) \<noteq> ThrowAfterLoop"
    unfolding execute_def by (rule retry_loop_integral_bound)
next
  assume "opt_maxAttempts options = None"
  then have "maxAttempts (merge_options options) = real 3"
    by (simp add: merge_options_def DEFAULT_OPTIONS_def)
  then show "exit_site (execute operation random options) \<noteq> ThrowAfterLoop"
    unfolding execute_def by (rule retry_loop_integral_bound) simp
qed

theorem execute_trailing_throw_witness:
  "execute (\<lambda>i. Inl err503 :: thrown + unit) (\<lambda>k. 0) (no_options\<lparr>opt_maxAttempts := Some 0\<rparr>) =
     \<lparr>outcome = Inl Undefined, exit_site = ThrowAfterLoop, invocations = 0, sleeps = []\<rparr> \<and>
   exit_site (execute (\<lambda>i. Inl err503 :: thrown + unit) (\<lambda>k. 0)
     (no_options\<lparr>opt_maxAttempts := Some (real 2)\<rparr>)) \<noteq> ThrowAfterLoop \<and>
   exit_site (execute (\<lambda>i. Inl err503 :: thrown + unit) (\<lambda>k. 0) no_options) \<noteq> ThrowAfterLoop"
  using
    execute_trailing_throw[of "no_options\<lparr>opt_maxAttempts := Some 0\<rparr>" 0
      "\<lambda>i. Inl err503 :: thrown + unit" "\<lambda>k. 0" 2]
    execute_trailing_throw[of "no_options\<lparr>opt_maxAttempts := Some (real 2)\<rparr>" 0
      "\<lambda>i. Inl err503 :: thrown + unit" "\<lambda>k. 0" 2]
    execute_trailing_throw[of no_options 0 "\<lambda>i. Inl err503 :: thrown + unit" "\<lambda>k. 0" 2]
  by (simp add: no_options_def)

text \<open>
  The claim as stated fails for a fractional \<open>maxAttempts\<close>: with \<open>maxAttempts = 1.5\<close> and a
  retryable failure, iteration 1 sleeps, the loop condition \<open>2 <= 1.5\<close> is false, and the
  statement after the loop throws.
\<close>

theorem execute_trailing_throw_fractional:
  "exit_site (execute (\<lambda>i. Inl err503 :: thrown + unit) (\<lambda>k. 0)
     (no_options\<lparr>opt_maxAttempts := Some (3/2)\<rparr>)) = ThrowAfterLoop \<and> (1::real) \<le> 3/2"
  unfolding execute_def
  by (simp add: merge_options_def no_options_def DEFAULT_OPTIONS_def err503_def
      default_retryCondition_def finalDelay_def retryAfterHeader_def)

subsection \<open>Rounding to a double\<close>

lemma bitLength_nonpos: "n \<le> 0 \<Longrightarrow> bitLength n = 0"
  by (subst bitLength.simps) simp

lemma bitLength_pos: "0 < n \<Longrightarrow> bitLength n = Suc (bitLength (n div 2))"
  by (subst bitLength.simps) simp

lemma bitLength_bounds: "0 < n \<Longrightarrow> 2 ^ (bitLength n - 1) \<le> n \<and> n < 2 ^ bitLength n"
proof (induction n rule: bitLength.induct)
  case (1 n)
  show ?case
  proof (cases "n = 1")
    case True
    then show ?thesis by (simp add: bitLength_pos bitLength_nonpos)
  next
    case False
    with "1.prems" have h: "0 < n div 2" by simp
    have "\<not> n \<le> 0" using "1.prems" by simp
    from "1.IH"[OF this h] have IH: "2 ^ (bitLength (n div 2) - 1) \<le> n div 2"
      "n div 2 < 2 ^ bitLength (n div 2)" by simp_all
    have pos: "0 < bitLength (n div 2)" using h by (simp add: bitLength_pos)
    then have e: "(2::int) ^ bitLength (n div 2) = 2 * 2 ^ (bitLength (n div 2) - 1)"
      by (cases "bitLength (n div 2)") simp_all
    have b: "bitLength n = Suc (bitLength (n div 2))" using "1.prems" by (rule bitLength_pos)
    have "(2::int) ^ (bitLength n - 1) \<le> 2 * (n div 2)" using IH(1) e b by simp
    also have "\<dots> \<le> n" by simp
    finally have lo: "(2::int) ^ (bitLength n - 1) \<le> n" .
    have "n < 2 * (n div 2) + 2" by presburger
    also have "\<dots> \<le> 2 * 2 ^ bitLength (n div 2)" using IH(2) by simp
    finally have "n < 2 ^ bitLength n" using b by simp
    with lo show ?thesis by simp
  qed
qed

lemma bitLength_eqI: "2 ^ k \<le> n \<Longrightarrow> n < 2 ^ Suc k \<Longrightarrow> bitLength n = Suc k"
proof -
  assume a: "2 ^ k \<le> n" "n < 2 ^ Suc k"
  have "(0::int) < 2 ^ k" by simp
  with a(1) have pos: "0 < n" by linarith
  from bitLength_bounds[OF pos] have b: "2 ^ (bitLength n - 1) \<le> n" "n < 2 ^ bitLength n"
    by simp_all
  have "(2::int) ^ (bitLength n - 1) < 2 ^ Suc k" using b(1) a(2) by linarith
  then have 1: "bitLength n - 1 < Suc k" by (simp only: power_strict_increasing_iff) 
  have "(2::int) ^ k < 2 ^ bitLength n" using b(2) a(1) by linarith
  then have 2: "k < bitLength n" by simp
  from 1 2 show ?thesis by simp
qed

lemma bitLength_mono: "m \<le> n \<Longrightarrow> bitLength m \<le> bitLength n"
proof (cases "0 < m")
  case False
  then show ?thesis by (simp add: bitLength_nonpos)
next
  case True
  assume le: "m \<le> n"
  with True have "0 < n" by simp
  from bitLength_bounds[OF True] bitLength_bounds[OF this] le
  have "(2::int) ^ (bitLength m - 1) < 2 ^ bitLength n" by linarith
  then have "bitLength m - 1 < bitLength n" by simp
  then show ?thesis by simp
qed

lemma roundHalfEven_int: "roundHalfEven (of_int k) = k"
  by (simp add: roundHalfEven_def)

lemma roundHalfEven_floor: "roundHalfEven x = \<lfloor>x\<rfloor> \<or> roundHalfEven x = \<lfloor>x\<rfloor> + 1"
  by (simp add: roundHalfEven_def Let_def)

lemma roundHalfEven_mono: "x \<le> y \<Longrightarrow> roundHalfEven x \<le> roundHalfEven y"
proof -
  assume le: "x \<le> y"
  then have f: "\<lfloor>x\<rfloor> \<le> \<lfloor>y\<rfloor>" by (rule floor_mono)
  show ?thesis
  proof (cases "\<lfloor>x\<rfloor> = \<lfloor>y\<rfloor>")
    case True
    then show ?thesis using le by (auto simp: roundHalfEven_def Let_def)
  next
    case False
    with f have "\<lfloor>x\<rfloor> + 1 \<le> \<lfloor>y\<rfloor>" by simp
    then show ?thesis using roundHalfEven_floor[of x] roundHalfEven_floor[of y] by linarith
  qed
qed

lemma roundHalfEven_le: "x \<le> of_int k \<Longrightarrow> roundHalfEven x \<le> k"
  using roundHalfEven_mono[of x "of_int k"] by (simp add: roundHalfEven_int)

lemma roundHalfEven_ge: "of_int k \<le> x \<Longrightarrow> k \<le> roundHalfEven x"
  using roundHalfEven_mono[of "of_int k" x] by (simp add: roundHalfEven_int)

lemma ulp_exp_mono: "\<bar>x\<bar> \<le> \<bar>y\<bar> \<Longrightarrow> ulp_exp x \<le> ulp_exp y"
  unfolding ulp_exp_def
  by (intro diff_le_mono bitLength_mono floor_mono) simp

lemma fl_mono:
  assumes "0 \<le> x" and "x \<le> y"
  shows "fl x \<le> fl y"
proof -
  let ?X = "x * 2 ^ 1074" and ?Y = "y * 2 ^ 1074"
  let ?s = "ulp_exp x" and ?t = "ulp_exp y"
  have st: "?s \<le> ?t" using assms by (intro ulp_exp_mono) simp
  show ?thesis
  proof (cases "?s = ?t")
    case True
    have "?X / 2 ^ ?s \<le> ?Y / 2 ^ ?s" using assms by (simp add: divide_right_mono)
    then have "roundHalfEven (?X / 2 ^ ?s) \<le> roundHalfEven (?Y / 2 ^ ?s)"
      by (rule roundHalfEven_mono)
    then have "(of_int (roundHalfEven (?X / 2 ^ ?s)) :: real) \<le> of_int (roundHalfEven (?Y / 2 ^ ?s))"
      by simp
    then have "(of_int (roundHalfEven (?X / 2 ^ ?s)) :: real) * 2 ^ ?s / 2 ^ 1074
        \<le> of_int (roundHalfEven (?Y / 2 ^ ?s)) * 2 ^ ?s / 2 ^ 1074"
      by (intro divide_right_mono mult_right_mono) simp_all
    then show ?thesis unfolding fl_def using True by simp
  next
    case False
    with st have lt: "?s < ?t" by simp
    have ay: "\<bar>y\<bar> = y" and ax: "\<bar>x\<bar> = x" using assms by simp_all
    \<comment> \<open>the larger number is at least \<open>2 ^ (t + 52)\<close> units\<close>
    have bt: "bitLength \<lfloor>?Y\<rfloor> = ?t + 53" using lt unfolding ulp_exp_def ay by simp
    then have "0 < \<lfloor>?Y\<rfloor>" using bitLength_nonpos[of "\<lfloor>?Y\<rfloor>"] by (cases "0 < \<lfloor>?Y\<rfloor>") simp_all
    from bitLength_bounds[OF this] have "(2::int) ^ (bitLength \<lfloor>?Y\<rfloor> - 1) \<le> \<lfloor>?Y\<rfloor>" ..
    moreover have "bitLength \<lfloor>?Y\<rfloor> - 1 = ?t + 52" unfolding bt by simp
    ultimately have "(2::int) ^ (?t + 52) \<le> \<lfloor>?Y\<rfloor>" by (simp only:)
    then have "of_int (2 ^ (?t + 52)) \<le> ?Y" by (simp only: le_floor_iff)
    then have "(2::real) ^ 52 * 2 ^ ?t \<le> ?Y" by (simp add: power_add)
    then have "(2::real) ^ 52 \<le> ?Y / 2 ^ ?t" by (simp add: pos_le_divide_eq)
    then have "of_int (2 ^ 52) \<le> ?Y / 2 ^ ?t" by simp
    then have ylo: "2 ^ 52 \<le> roundHalfEven (?Y / 2 ^ ?t)" by (rule roundHalfEven_ge)
    \<comment> \<open>the smaller one is at most \<open>2 ^ (s + 53)\<close> units\<close>
    have bs: "bitLength \<lfloor>?X\<rfloor> \<le> ?s + 53" unfolding ulp_exp_def ax by simp
    have "\<lfloor>?X\<rfloor> < 2 ^ (?s + 53)"
    proof (cases "0 < \<lfloor>?X\<rfloor>")
      case True
      from bitLength_bounds[OF True] have "\<lfloor>?X\<rfloor> < 2 ^ bitLength \<lfloor>?X\<rfloor>" by simp
      also have "(2::int) ^ bitLength \<lfloor>?X\<rfloor> \<le> 2 ^ (?s + 53)" using bs by simp
      finally show ?thesis .
    next
      case False
      have "(0::int) < 2 ^ (?s + 53)" by simp
      with False show ?thesis by linarith
    qed
    then have "?X < of_int (2 ^ (?s + 53))" by (simp only: floor_less_iff)
    then have "?X < 2 ^ 53 * 2 ^ ?s" by (simp add: power_add mult.commute)
    then have "?X / 2 ^ ?s \<le> 2 ^ 53" by (simp add: pos_divide_le_eq)
    then have "?X / 2 ^ ?s \<le> of_int (2 ^ 53)" by simp
    then have xhi: "roundHalfEven (?X / 2 ^ ?s) \<le> 2 ^ 53" by (rule roundHalfEven_le)
    have "fl x \<le> 2 ^ 53 * 2 ^ ?s / 2 ^ 1074"
      unfolding fl_def using xhi
      by (intro divide_right_mono mult_right_mono) (simp_all add: of_int_le_iff[symmetric] del: of_int_le_iff)
    also have "\<dots> = 2 ^ 52 * 2 ^ Suc ?s / 2 ^ 1074" by simp
    also have "\<dots> \<le> 2 ^ 52 * 2 ^ ?t / (2 ^ 1074 :: real)"
      using lt by (intro divide_right_mono mult_left_mono power_increasing) simp_all
    also have "\<dots> \<le> fl y"
      unfolding fl_def using ylo
      by (intro divide_right_mono mult_right_mono) (simp_all add: of_int_le_iff[symmetric] del: of_int_le_iff)
    finally show ?thesis .
  qed
qed

lemma fl_normal:
  assumes lo: "2 ^ a \<le> \<bar>x\<bar> * 2 ^ b" and hi: "\<bar>x\<bar> * 2 ^ b < 2 ^ Suc a" and n: "b \<le> a + 1022"
  shows "fl x = of_int (roundHalfEven (x * 2 ^ b * 2 ^ 52 / 2 ^ a)) * 2 ^ a / (2 ^ 52 * 2 ^ b)"
proof -
  let ?j = "a + 1074 - b"
  have j: "?j + b = a + 1074" using n by simp
  have pj: "(2::real) ^ ?j * 2 ^ b = 2 ^ a * 2 ^ 1074"
    using j by (metis power_add)
  have X: "\<bar>x\<bar> * 2 ^ 1074 = \<bar>x\<bar> * 2 ^ b * 2 ^ ?j / 2 ^ a"
  proof -
    have "\<bar>x\<bar> * 2 ^ b * 2 ^ ?j / 2 ^ a = \<bar>x\<bar> * (2 ^ ?j * 2 ^ b) / 2 ^ a" by (simp add: mult_ac)
    also have "\<dots> = \<bar>x\<bar> * 2 ^ 1074" unfolding pj by simp
    finally show ?thesis by simp
  qed
  have "2 ^ ?j \<le> \<bar>x\<bar> * 2 ^ 1074"
  proof -
    have "(2::real) ^ a * 2 ^ ?j \<le> \<bar>x\<bar> * 2 ^ b * 2 ^ ?j" using lo by (intro mult_right_mono) simp_all
    then have "(2::real) ^ ?j \<le> \<bar>x\<bar> * 2 ^ b * 2 ^ ?j / 2 ^ a"
      by (simp add: pos_le_divide_eq mult.commute)
    then show ?thesis unfolding X .
  qed
  then have "of_int (2 ^ ?j) \<le> \<bar>x\<bar> * 2 ^ 1074" by simp
  then have flo: "2 ^ ?j \<le> \<lfloor>\<bar>x\<bar> * 2 ^ 1074\<rfloor>" by (simp only: le_floor_iff)
  have "\<bar>x\<bar> * 2 ^ 1074 < 2 ^ Suc ?j"
  proof -
    have "\<bar>x\<bar> * 2 ^ b * 2 ^ ?j < 2 ^ Suc a * 2 ^ ?j" using hi by (intro mult_strict_right_mono) simp_all
    then have "\<bar>x\<bar> * 2 ^ b * 2 ^ ?j / 2 ^ a < 2 ^ Suc ?j"
      by (simp add: pos_divide_less_eq mult_ac)
    then show ?thesis unfolding X .
  qed
  then have "\<bar>x\<bar> * 2 ^ 1074 < of_int (2 ^ Suc ?j)" by simp
  then have fhi: "\<lfloor>\<bar>x\<bar> * 2 ^ 1074\<rfloor> < 2 ^ Suc ?j" by (simp only: floor_less_iff)
  have "bitLength \<lfloor>\<bar>x\<bar> * 2 ^ 1074\<rfloor> = Suc ?j" using flo fhi by (rule bitLength_eqI)
  then have u: "ulp_exp x = a + 1022 - b" unfolding ulp_exp_def using n by simp
  let ?s = "a + 1022 - b"
  have s: "?s + b = a + 1022" using n by simp
  have ps: "(2::real) ^ ?s * 2 ^ b = 2 ^ a * 2 ^ 1022"
    using s by (metis power_add)
  have ps': "(2::real) ^ ?s = 2 ^ a * 2 ^ 1022 / 2 ^ b"
    using ps by (simp add: eq_divide_eq)
  have e52: "(2::real) ^ 1074 = 2 ^ 52 * 2 ^ 1022" by simp
  have 1: "x * 2 ^ 1074 / 2 ^ ?s = x * 2 ^ b * 2 ^ 52 / 2 ^ a"
    unfolding ps' e52 by simp
  have 2: "\<And>r::real. r * 2 ^ ?s / 2 ^ 1074 = r * 2 ^ a / (2 ^ 52 * 2 ^ b)"
    unfolding ps' e52 by simp
  show ?thesis unfolding fl_def u 1 2 ..
qed

lemma fl_0: "fl 0 = 0"
  by (simp add: fl_def roundHalfEven_def)

lemma fl_pow2: "fl (2 ^ n) = 2 ^ n"
proof -
  have "fl (2 ^ n) = of_int (roundHalfEven ((2::real) ^ n * 2 ^ 0 * 2 ^ 52 / 2 ^ n)) * 2 ^ n / (2 ^ 52 * 2 ^ 0)"
    by (rule fl_normal) simp_all
  also have "(2::real) ^ n * 2 ^ 0 * 2 ^ 52 / 2 ^ n = of_int (2 ^ 52)" by simp
  finally show ?thesis by (simp only: roundHalfEven_int) simp
qed

lemma fl_int:
  assumes "\<bar>m\<bar> \<le> 2 ^ 53"
  shows "fl (of_int m) = of_int m"
proof (cases "m = 0")
  case True
  then show ?thesis by (simp add: fl_0)
next
  case False
  then have pos: "0 < \<bar>m\<bar>" by simp
  define a where "a = bitLength \<bar>m\<bar> - 1"
  from bitLength_bounds[OF pos] have b: "2 ^ a \<le> \<bar>m\<bar>" "\<bar>m\<bar> < 2 ^ bitLength \<bar>m\<bar>"
    unfolding a_def by simp_all
  have bp: "0 < bitLength \<bar>m\<bar>" using pos by (simp add: bitLength_pos)
  then have sa: "bitLength \<bar>m\<bar> = Suc a" unfolding a_def by simp
  have "(2::int) ^ a \<le> 2 ^ 53" using b(1) assms by linarith
  then have a53: "a \<le> 53" by (rule power_le_imp_le_exp[of "2::int", rotated]) simp
  have lo: "2 ^ a \<le> \<bar>real_of_int m\<bar> * 2 ^ 0"
  proof -
    have "real_of_int (2 ^ a) \<le> real_of_int \<bar>m\<bar>" using b(1) by (simp only: of_int_le_iff)
    then show ?thesis by simp
  qed
  have hi: "\<bar>real_of_int m\<bar> * 2 ^ 0 < 2 ^ Suc a"
  proof -
    have "real_of_int \<bar>m\<bar> < real_of_int (2 ^ Suc a)" using b(2) sa by (simp only: of_int_less_iff)
    then show ?thesis by simp
  qed
  have f: "fl (of_int m) =
      of_int (roundHalfEven (of_int m * 2 ^ 0 * 2 ^ 52 / 2 ^ a)) * 2 ^ a / (2 ^ 52 * 2 ^ 0)"
    using lo hi by (rule fl_normal) simp
  show ?thesis
  proof (cases "a \<le> 52")
    case True
    then have e: "(2::real) ^ 52 = 2 ^ (52 - a) * 2 ^ a" by (simp add: power_add[symmetric])
    have "real_of_int m * 2 ^ 0 * 2 ^ 52 / 2 ^ a = of_int (m * 2 ^ (52 - a))"
      unfolding e by simp
    then have "fl (of_int m) = of_int (m * 2 ^ (52 - a)) * 2 ^ a / (2 ^ 52 * 2 ^ 0)"
      using f by (simp only: roundHalfEven_int)
    also have "\<dots> = of_int m * (2 ^ (52 - a) * 2 ^ a) / 2 ^ 52" by simp
    also have "\<dots> = of_int m" using True by (simp add: power_add[symmetric])
    finally show ?thesis .
  next
    case False
    with a53 have a: "a = 53" by simp
    with b(1) assms have "\<bar>m\<bar> = 2 ^ 53" by simp
    then have "m = 2 ^ 53 \<or> m = - (2 ^ 53)" by linarith
    then show ?thesis
    proof
      assume "m = 2 ^ 53"
      then show ?thesis using fl_pow2[of 53] by simp
    next
      assume m: "m = - (2 ^ 53)"
      have "fl (of_int m) = of_int (roundHalfEven (of_int (- (2 ^ 52)))) * 2 ^ 53 / (2 ^ 52 * 2 ^ 0)"
        using f unfolding a m by simp
      then show ?thesis unfolding roundHalfEven_int m by simp
    qed
  qed
qed

subsection \<open>The sleeps of a run\<close>

lemma retry_loop_sleeps_prefix:
  "\<exists>ys. sleeps (retry_loop opts operation random attempt lastError calls slept) = slept @ ys"
proof (induction opts operation random attempt lastError calls slept rule: retry_loop.induct)
  case (1 opts operation random attempt lastError calls slept)
  show ?case
  proof (cases "real attempt \<le> maxAttempts opts")
    case False
    then show ?thesis by (subst retry_loop.simps) simp
  next
    case le: True
    show ?thesis
    proof (cases "operation (Suc calls)")
      case (Inr v)
      with le show ?thesis by (subst retry_loop.simps) simp
    next
      case (Inl e)
      show ?thesis
      proof (cases "real attempt = maxAttempts opts")
        case True
        with le Inl show ?thesis by (subst retry_loop.simps) simp
      next
        case ne: False
        show ?thesis
        proof (cases "retryCondition opts e")
          case (Inl t)
          with le \<open>operation (Suc calls) = Inl e\<close> ne show ?thesis
            by (subst retry_loop.simps) simp
        next
          case (Inr b)
          show ?thesis
          proof (cases b)
            case False
            with le \<open>operation (Suc calls) = Inl e\<close> ne Inr show ?thesis
              by (subst retry_loop.simps) simp
          next
            case True
            show ?thesis
            proof (cases "finalDelay opts attempt (random attempt) e")
              case (Inl t)
              with le \<open>operation (Suc calls) = Inl e\<close> ne Inr True show ?thesis
                by (subst retry_loop.simps) simp
            next
              case d: (Inr d)
              have bT: "b = True" using True by simp
              from "1.IH"[OF le \<open>operation (Suc calls) = Inl e\<close> ne Inr bT d]
              obtain ys where
                "sleeps (retry_loop opts operation random (Suc attempt) e (Suc calls) (slept @ [d]))
                  = (slept @ [d]) @ ys" by blast
              with le \<open>operation (Suc calls) = Inl e\<close> ne Inr True d show ?thesis
                by (subst retry_loop.simps) simp
            qed
          qed
        qed
      qed
    qed
  qed
qed

lemma retry_loop_sleeps_nth:
  assumes "\<And>i. a \<le> i \<Longrightarrow> i \<le> j \<Longrightarrow>
             \<exists>x. operation i = Inl (Err x) \<and> retryCondition opts (Err x) = Inr True"
    and "real j < maxAttempts opts" and "1 \<le> a" and "a \<le> j"
    and "operation j = Inl (Err x)" and "finalDelay opts j (random j) (Err x) = Inr d"
  shows "length slept + (j - a) <
           length (sleeps (retry_loop opts operation random a lastError (a - 1) slept)) \<and>
         sleeps (retry_loop opts operation random a lastError (a - 1) slept) !
           (length slept + (j - a)) = d"
  using assms
proof (induction "j - a" arbitrary: a lastError slept)
  case 0
  then have aj: "a = j" by simp
  have le: "real a \<le> maxAttempts opts" "real a \<noteq> maxAttempts opts"
    using 0 aj by simp_all
  have op: "operation (Suc (a - 1)) = Inl (Err x)" using 0 aj by simp
  have rc: "retryCondition opts (Err x) = Inr True"
    using 0(2)[of j] 0 aj by auto
  have step: "retry_loop opts operation random a lastError (a - 1) slept =
      retry_loop opts operation random (Suc a) (Err x) (Suc (a - 1)) (slept @ [d])"
    using le op rc 0(7) aj by (subst retry_loop.simps) simp
  obtain ys where "sleeps (retry_loop opts operation random (Suc a) (Err x) (Suc (a - 1)) (slept @ [d]))
      = (slept @ [d]) @ ys"
    using retry_loop_sleeps_prefix by blast
  then show ?case unfolding step using aj by (simp add: nth_append del: retry_loop.simps)
next
  case (Suc n)
  then have lt: "a < j" by simp
  obtain y where y: "operation a = Inl (Err y)" "retryCondition opts (Err y) = Inr True"
    using Suc(3)[of a] lt by auto
  obtain dy where dy: "finalDelay opts a (random a) (Err y) = Inr dy"
    using finalDelay_Err by blast
  have le: "real a \<le> maxAttempts opts" "real a \<noteq> maxAttempts opts"
    using Suc(4) lt by simp_all
  have op: "operation (Suc (a - 1)) = Inl (Err y)" using y Suc(5) by simp
  have step: "retry_loop opts operation random a lastError (a - 1) slept =
      retry_loop opts operation random (Suc a) (Err y) (Suc a - 1) (slept @ [dy])"
    using le op y(2) dy Suc(5) by (subst retry_loop.simps) simp
  have "length (slept @ [dy]) + (j - Suc a) <
           length (sleeps (retry_loop opts operation random (Suc a) (Err y) (Suc a - 1) (slept @ [dy]))) \<and>
      sleeps (retry_loop opts operation random (Suc a) (Err y) (Suc a - 1) (slept @ [dy])) !
      (length (slept @ [dy]) + (j - Suc a)) = d"
  proof (rule Suc(1))
    show "n = j - Suc a" using Suc(2) by simp
    show "\<And>i. Suc a \<le> i \<Longrightarrow> i \<le> j \<Longrightarrow>
        \<exists>x. operation i = Inl (Err x) \<and> retryCondition opts (Err x) = Inr True"
      using Suc(3) by simp
    show "real j < maxAttempts opts" using Suc(4) .
    show "1 \<le> Suc a" by simp
    show "Suc a \<le> j" using lt by simp
    show "operation j = Inl (Err x)" using Suc(7) .
    show "finalDelay opts j (random j) (Err x) = Inr d" using Suc(8) .
  qed
  moreover have "length (slept @ [dy]) + (j - Suc a) = length slept + (j - a)"
    using lt by simp
  ultimately show ?case unfolding step by metis
qed

subsection \<open>The delays of the default policy\<close>

lemma fl_tenth: "fl (1 / 10) = 3602879701896397 / 36028797018963968"
  using fl_normal[of 0 "1 / 10" 4] by (simp add: roundHalfEven_def)

lemma fl_tenth_fixed: "fl (3602879701896397 / 36028797018963968) = 3602879701896397 / 36028797018963968"
  using fl_normal[of 0 "3602879701896397 / 36028797018963968" 4] by (simp add: roundHalfEven_def)

lemma fl_tenth_of:
  "fl (3602879701896397 / 36028797018963968 * 1000) = 100"
  "fl (3602879701896397 / 36028797018963968 * 2000) = 200"
  "fl (3602879701896397 / 36028797018963968 * 4000) = 400"
  "fl (3602879701896397 / 36028797018963968 * 8000) = 800"
  "fl (3602879701896397 / 36028797018963968 * 10000) = 1000"
  using fl_normal[of 6 "3602879701896397 / 36028797018963968 * 1000" 0]
    fl_normal[of 7 "3602879701896397 / 36028797018963968 * 2000" 0]
    fl_normal[of 8 "3602879701896397 / 36028797018963968 * 4000" 0]
    fl_normal[of 9 "3602879701896397 / 36028797018963968 * 8000" 0]
    fl_normal[of 9 "3602879701896397 / 36028797018963968 * 10000" 0]
  by (simp_all add: roundHalfEven_def)

lemma fl_numeral: "\<bar>numeral n :: int\<bar> \<le> 2 ^ 53 \<Longrightarrow> fl (numeral n) = numeral n"
  using fl_int[of "numeral n"] by simp

lemma fl_1000_pow2: "fl (1000 * 2 ^ n) = 1000 * 2 ^ n"
proof -
  have e: "(2::real) ^ (n + 9) = 512 * 2 ^ n" by (simp add: power_add)
  have "fl (1000 * 2 ^ n) =
      of_int (roundHalfEven (1000 * 2 ^ n * 2 ^ 0 * 2 ^ 52 / 2 ^ (n + 9))) * 2 ^ (n + 9) / (2 ^ 52 * 2 ^ 0)"
    by (rule fl_normal) (simp_all add: power_add)
  also have "1000 * 2 ^ n * 2 ^ 0 * 2 ^ 52 / 2 ^ (n + 9) = real_of_int (1000 * 2 ^ 43)"
    unfolding e by simp
  finally show ?thesis unfolding roundHalfEven_int e by simp
qed

lemma backoff_default:
  assumes "baseDelay opts = 1000" "backoffFactor opts = 2" "maxDelay opts = 10000"
  shows "backoffDelay opts a = min (1000 * 2 ^ (a - 1)) 10000"
  by (simp only: backoffDelay_def assms fl_pow2 fl_1000_pow2)

lemma jitter_bounds:
  assumes r: "0 \<le> r" "r < 1" and D: "0 \<le> D"
    and tenth: "fl (3602879701896397 / 36028797018963968 * D) = D / 10"
    and fD: "fl D = D" and fU: "fl (D + D / 10) = D + D / 10"
  shows "D \<le> fl (D + fl (fl (r * fl (1 / 10)) * D))"
    and "fl (D + fl (fl (r * fl (1 / 10)) * D)) \<le> 11 / 10 * D"
proof -
  let ?c = "3602879701896397 / 36028797018963968 :: real"
  have c0: "0 \<le> ?c" by simp
  have "r * ?c \<le> ?c" using r by (simp add: mult_left_le_one_le)
  then have "fl (r * ?c) \<le> fl ?c" using r by (intro fl_mono) simp_all
  then have a_hi: "fl (r * ?c) \<le> ?c" unfolding fl_tenth_fixed .
  have "fl 0 \<le> fl (r * ?c)" using r by (intro fl_mono) simp_all
  then have a_lo: "0 \<le> fl (r * ?c)" unfolding fl_0 .
  have m_lo: "0 \<le> fl (r * ?c) * D" using a_lo D by simp
  have m_hi: "fl (r * ?c) * D \<le> ?c * D" using a_hi D by (rule mult_right_mono)
  have "fl 0 \<le> fl (fl (r * ?c) * D)" using m_lo by (intro fl_mono) simp_all
  then have j_lo: "0 \<le> fl (fl (r * ?c) * D)" unfolding fl_0 .
  have "fl (fl (r * ?c) * D) \<le> fl (?c * D)" using m_lo m_hi by (rule fl_mono)
  then have j_hi: "fl (fl (r * ?c) * D) \<le> D / 10" unfolding tenth .
  have "fl D \<le> fl (D + fl (fl (r * ?c) * D))" using D j_lo by (intro fl_mono) simp_all
  then show "D \<le> fl (D + fl (fl (r * fl (1 / 10)) * D))" unfolding fD fl_tenth .
  have "fl (D + fl (fl (r * ?c) * D)) \<le> fl (D + D / 10)"
    using D j_lo j_hi by (intro fl_mono) simp_all
  then show "fl (D + fl (fl (r * fl (1 / 10)) * D)) \<le> 11 / 10 * D"
    unfolding fU fl_tenth by simp
qed

lemma default_delay_cases:
  "min (1000 * 2 ^ n) (10000::real) \<in> {1000, 2000, 4000, 8000, 10000}"
proof -
  consider "n = 0" | "n = 1" | "n = 2" | "n = 3" | "4 \<le> n" by linarith
  then show ?thesis
  proof cases
    case 5
    then have "(2::real) ^ 4 \<le> 2 ^ n" by (intro power_increasing) simp_all
    then have "(10000::real) \<le> 1000 * 2 ^ n" by simp
    then show ?thesis by (simp add: min_def)
  qed simp_all
qed

lemma totalDelay_default_bounds:
  assumes "baseDelay opts = 1000" "backoffFactor opts = 2" "maxDelay opts = 10000"
    and r: "0 \<le> r" "r < 1"
  shows "min (1000 * 2 ^ (a - 1)) 10000 \<le> totalDelay opts a r"
    and "totalDelay opts a r \<le> 11 / 10 * min (1000 * 2 ^ (a - 1)) 10000"
proof -
  define D :: real where "D = min (1000 * 2 ^ (a - 1)) 10000"
  have t: "totalDelay opts a r = fl (D + fl (fl (r * fl (1 / 10)) * D))"
    by (simp only: totalDelay_def Let_def backoff_default[OF assms(1-3)] D_def)
  have "D \<in> {1000, 2000, 4000, 8000, 10000}" unfolding D_def by (rule default_delay_cases)
  then have "0 \<le> D \<and> fl (3602879701896397 / 36028797018963968 * D) = D / 10 \<and>
      fl D = D \<and> fl (D + D / 10) = D + D / 10"
    using fl_tenth_of by (auto simp: fl_numeral)
  then have "D \<le> fl (D + fl (fl (r * fl (1 / 10)) * D)) \<and>
      fl (D + fl (fl (r * fl (1 / 10)) * D)) \<le> 11 / 10 * D"
    using jitter_bounds[OF r, of D] by blast
  then show "min (1000 * 2 ^ (a - 1)) 10000 \<le> totalDelay opts a r"
    and "totalDelay opts a r \<le> 11 / 10 * min (1000 * 2 ^ (a - 1)) 10000"
    unfolding t D_def by simp_all
qed

lemma DEFAULT_OPTIONS_fields:
  "maxAttempts DEFAULT_OPTIONS = 3" "baseDelay DEFAULT_OPTIONS = 1000"
  "maxDelay DEFAULT_OPTIONS = 10000" "backoffFactor DEFAULT_OPTIONS = 2"
  "retryCondition DEFAULT_OPTIONS = default_retryCondition"
  by (simp_all add: DEFAULT_OPTIONS_def)

lemma parseInt_nonempty: "parseInt s = Some n \<Longrightarrow> s \<noteq> []"
  by (auto simp: parseInt_def trimStart_def)

lemma totalDelay_zero:
  assumes "baseDelay opts = 1000" "backoffFactor opts = 2" "maxDelay opts = 10000"
  shows "totalDelay opts a 0 = min (1000 * 2 ^ (a - 1)) 10000"
proof -
  have "min (1000 * 2 ^ (a - 1)) (10000::real) \<in> {1000, 2000, 4000, 8000, 10000}"
    by (rule default_delay_cases)
  then have "fl (min (1000 * 2 ^ (a - 1)) 10000) = min (1000 * 2 ^ (a - 1)) 10000"
    by (auto simp: fl_numeral)
  then show ?thesis
    by (simp add: totalDelay_def Let_def backoff_default[OF assms] fl_0)
qed

lemma totalDelay_half:
  "totalDelay DEFAULT_OPTIONS (Suc 0) (1 / 2) = 1050"
  "totalDelay DEFAULT_OPTIONS 2 (1 / 2) = 2100"
proof -
  have h: "fl (1 / 2 * fl (1 / 10)) = 3602879701896397 / 72057594037927936"
    unfolding fl_tenth
    using fl_normal[of 0 "1 / 2 * (3602879701896397 / 36028797018963968)" 5]
    by (simp add: roundHalfEven_def)
  have j1: "fl (3602879701896397 / 72057594037927936 * 1000) = 50"
    using fl_normal[of 5 "3602879701896397 / 72057594037927936 * 1000" 0]
    by (simp add: roundHalfEven_def)
  have j2: "fl (3602879701896397 / 72057594037927936 * 2000) = 100"
    using fl_normal[of 6 "3602879701896397 / 72057594037927936 * 2000" 0]
    by (simp add: roundHalfEven_def)
  have d: "baseDelay DEFAULT_OPTIONS = 1000" "backoffFactor DEFAULT_OPTIONS = 2"
    "maxDelay DEFAULT_OPTIONS = 10000"
    by (simp_all add: DEFAULT_OPTIONS_def)
  show "totalDelay DEFAULT_OPTIONS (Suc 0) (1 / 2) = 1050"
    unfolding totalDelay_def Let_def backoff_default[OF d] h
    using j1 by (simp add: fl_numeral)
  show "totalDelay DEFAULT_OPTIONS 2 (1 / 2) = 2100"
    unfolding totalDelay_def Let_def backoff_default[OF d] h
    using j2 by (simp add: fl_numeral)
qed

text \<open>
  C6, as amended. Let the base delay, the factor and the cap have their default values, let
  the calls 1 to \<open>k - 1\<close> of the operation (\<open>k \<ge> 2\<close>) fail with errors the retry predicate
  accepts, let \<open>k - 1\<close> be below \<open>maxAttempts\<close>, and let the jitter sample of iteration \<open>k - 1\<close>
  be in \<open>[0, 1)\<close>. Then \<open>execute\<close> sleeps before attempt \<open>k\<close>, and its delay, computed in
  doubles, is as follows, for a jittered delay \<open>t\<close> in the closed interval
  \<open>[min(2^(k-2) * 1000, 10000), 1.1 * min(2^(k-2) * 1000, 10000)]\<close>: it is \<open>t\<close> when the
  error of call \<open>k - 1\<close> has no Retry-After header or an empty one; it is the larger of
  \<open>n * 1000\<close>, rounded to a double, and \<open>t\<close> when \<open>parseInt\<close> reads the header as \<open>n\<close>, the
  product being exact up to \<open>2^53\<close>; and it is NaN when \<open>parseInt\<close> reads no number.
\<close>

theorem execute_delay_bounds:
  fixes operation :: "nat \<Rightarrow> thrown + 'a"
  assumes "2 \<le> k"
    and "baseDelay (merge_options options) = 1000"
    and "backoffFactor (merge_options options) = 2"
    and "maxDelay (merge_options options) = 10000"
    and "real (k - 1) < maxAttempts (merge_options options)"
    and "\<forall>i. 1 \<le> i \<and> i < k \<longrightarrow>
           (\<exists>e. operation i = Inl (Err e) \<and>
                retryCondition (merge_options options) (Err e) = Inr True)"
    and "operation (k - 1) = Inl (Err x)"
    and "0 \<le> random (k - 1)" and "random (k - 1) < 1"
  shows "k - 2 < length (sleeps (execute operation random options)) \<and>
    (\<exists>t. min (2 ^ (k - 2) * 1000) 10000 \<le> t \<and> t \<le> 1.1 * min (2 ^ (k - 2) * 1000) 10000 \<and>
       (retryAfterHeader x = None \<or> retryAfterHeader x = Some [] \<longrightarrow>
          sleeps (execute operation random options) ! (k - 2) = Some t) \<and>
       (retryAfterHeader x = Some s \<and> parseInt s = Some n \<longrightarrow>
          sleeps (execute operation random options) ! (k - 2) =
            Some (max (fl (real_of_int n * 1000)) t) \<and>
          (\<bar>n\<bar> * 1000 \<le> 2 ^ 53 \<longrightarrow>
             sleeps (execute operation random options) ! (k - 2) =
               Some (max (real_of_int n * 1000) t))) \<and>
       (retryAfterHeader x = Some s \<and> s \<noteq> [] \<and> parseInt s = None \<longrightarrow>
          sleeps (execute operation random options) ! (k - 2) = None))"
proof -
  let ?opts = "merge_options options"
  let ?t = "totalDelay ?opts (k - 1) (random (k - 1))"
  let ?run = "execute operation random options"
  have k: "k - 1 - 1 = k - 2" by simp
  have lo: "min (2 ^ (k - 2) * 1000) 10000 \<le> ?t"
    and hi: "?t \<le> 1.1 * min (2 ^ (k - 2) * 1000) 10000"
    using totalDelay_default_bounds[OF assms(2-4) assms(8,9), of "k - 1"] unfolding k
    by (simp_all add: mult.commute)
  obtain d where d: "finalDelay ?opts (k - 1) (random (k - 1)) (Err x) = Inr d"
    using finalDelay_Err by blast
  have fails: "\<And>i. 1 \<le> i \<Longrightarrow> i \<le> k - 1 \<Longrightarrow>
      \<exists>x. operation i = Inl (Err x) \<and> retryCondition ?opts (Err x) = Inr True"
    using assms(1,6) by simp
  have "length ([] :: real option list) + (k - 1 - 1) <
        length (sleeps (retry_loop ?opts operation random 1 Undefined (1 - 1) [])) \<and>
      sleeps (retry_loop ?opts operation random 1 Undefined (1 - 1) []) !
        (length ([] :: real option list) + (k - 1 - 1)) = d"
    using fails assms(5) _ _ assms(7) d
    by (rule retry_loop_sleeps_nth) (use assms(1) in simp_all)
  then have len: "k - 2 < length (sleeps ?run)" and nth: "sleeps ?run ! (k - 2) = d"
    unfolding execute_def k by simp_all
  have plain: "retryAfterHeader x = None \<or> retryAfterHeader x = Some [] \<Longrightarrow> d = Some ?t"
    using d by (auto simp: finalDelay_def)
  have hdr: "retryAfterHeader x = Some s \<and> parseInt s = Some n \<Longrightarrow>
      d = Some (max (fl (real_of_int n * 1000)) ?t)"
    using d parseInt_nonempty[of s n] by (auto simp: finalDelay_def)
  have exact: "\<bar>n\<bar> * 1000 \<le> 2 ^ 53 \<Longrightarrow> fl (real_of_int n * 1000) = real_of_int n * 1000"
    using fl_int[of "n * 1000"] by (simp add: abs_mult)
  have nan: "retryAfterHeader x = Some s \<and> s \<noteq> [] \<and> parseInt s = None \<Longrightarrow> d = None"
    using d by (auto simp: finalDelay_def)
  show ?thesis
    unfolding nth using len lo hi plain hdr exact nan
    by (intro conjI exI[of _ ?t]) (simp_all only: nth, auto)
qed

lemma parseInt_120: "parseInt ''120'' = Some 120"
  by (simp add: parseInt_def trimStart_def isWhiteSpace_def isRadixDigit_def digitValue_def
      radixValue_def roundToDouble_def)

lemma parseInt_soon: "parseInt ''soon'' = None"
  by (simp add: parseInt_def trimStart_def isWhiteSpace_def isRadixDigit_def digitValue_def)

theorem execute_delay_bounds_witness:
  "(2::nat) \<le> 3 \<and> real (3 - 1) < maxAttempts (merge_options no_options) \<and>
   baseDelay (merge_options no_options) = 1000 \<and> backoffFactor (merge_options no_options) = 2 \<and>
   maxDelay (merge_options no_options) = 10000 \<and>
   retryCondition (merge_options no_options) err503 = Inr True \<and>
   retryCondition (merge_options no_options) (Err (err429 ''120'')) = Inr True \<and>
   (0::real) \<le> 1 / 2 \<and> (1 / 2 :: real) < 1 \<and>
   sleeps (execute (\<lambda>i. Inl err503 :: thrown + unit) (\<lambda>k. 1 / 2) no_options) ! (3 - 2) = Some 2100 \<and>
   min (2 ^ (3 - 2) * 1000) 10000 \<le> (2100::real) \<and>
   (2100::real) \<le> 1.1 * min (2 ^ (3 - 2) * 1000) 10000 \<and>
   retryAfterHeader (err429 ''120'') = Some ''120'' \<and> parseInt ''120'' = Some 120 \<and>
   \<bar>120 :: int\<bar> * 1000 \<le> 2 ^ 53 \<and>
   sleeps (execute (\<lambda>i. Inl (Err (err429 ''120'')) :: thrown + unit) (\<lambda>k. 1 / 2) no_options) !
     (3 - 2) = Some 120000 \<and>
   retryAfterHeader (err429 ''soon'') = Some ''soon'' \<and> parseInt ''soon'' = None \<and>
   sleeps (execute (\<lambda>i. Inl (Err (err429 ''soon'')) :: thrown + unit) (\<lambda>k. 1 / 2) no_options) !
     (3 - 2) = None"
proof -
  have o: "real (3 - 1) < maxAttempts (merge_options no_options)"
    "baseDelay (merge_options no_options) = 1000" "backoffFactor (merge_options no_options) = 2"
    "maxDelay (merge_options no_options) = 10000"
    by (simp_all add: merge_no_options DEFAULT_OPTIONS_def)
  have c: "retryCondition (merge_options no_options) err503 = Inr True"
    "\<And>h. retryCondition (merge_options no_options) (Err (err429 h)) = Inr True"
    by (simp_all add: merge_no_options DEFAULT_OPTIONS_def default_retryCondition_def err503_def
        err429_def)
  have h: "\<And>h. retryAfterHeader (err429 h) = Some h"
    by (simp add: retryAfterHeader_def err429_def)
  have a: "sleeps (execute (\<lambda>i. Inl err503 :: thrown + unit) (\<lambda>k. 1 / 2) no_options) ! (3 - 2)
      = Some 2100"
    unfolding execute_def merge_no_options
    using totalDelay_half(2)[unfolded numeral_2_eq_2]
    by (simp add: DEFAULT_OPTIONS_fields default_retryCondition_def err503_def finalDelay_def
        retryAfterHeader_def totalDelay_half)
  from execute_delay_bounds[of 3 no_options "\<lambda>i. Inl (Err (err429 ''120'')) :: thrown + unit"
      "err429 ''120''" "\<lambda>k. 1 / 2" "''120''" 120] o c h parseInt_120
  obtain t where t: "t \<le> 1.1 * min (2 ^ (3 - 2) * 1000) 10000"
    "sleeps (execute (\<lambda>i. Inl (Err (err429 ''120'')) :: thrown + unit) (\<lambda>k. 1 / 2) no_options) !
       (3 - 2) = Some (max (real_of_int 120 * 1000) t)"
    by auto
  from t(1) have "max (real_of_int 120 * 1000) t = 120000" by simp
  with t(2) have b: "sleeps (execute (\<lambda>i. Inl (Err (err429 ''120'')) :: thrown + unit)
      (\<lambda>k. 1 / 2) no_options) ! (3 - 2) = Some 120000" by simp
  from execute_delay_bounds[of 3 no_options "\<lambda>i. Inl (Err (err429 ''soon'')) :: thrown + unit"
      "err429 ''soon''" "\<lambda>k. 1 / 2" "''soon''" 0] o c h parseInt_soon
  have n: "sleeps (execute (\<lambda>i. Inl (Err (err429 ''soon'')) :: thrown + unit)
      (\<lambda>k. 1 / 2) no_options) ! (3 - 2) = None"
    by auto
  show ?thesis using o c h a b n parseInt_120 parseInt_soon by simp
qed

text \<open>
  The upper end of the interval is attained: with the largest sample below 1, \<open>1 - 2^-53\<close>,
  the three roundings make the first delay exactly 1100.
\<close>

lemma totalDelay_upper_end:
  "totalDelay DEFAULT_OPTIONS 1 (1 - 1 / 2 ^ 53) = 1100"
proof -
  have a: "fl ((1 - 1 / 2 ^ 53) * fl (1 / 10)) = 7205759403792793 / 72057594037927936"
    unfolding fl_tenth
    using fl_normal[of 0 "(1 - 1 / 2 ^ 53) * (3602879701896397 / 36028797018963968)" 4]
    by (simp add: roundHalfEven_def)
  have b: "fl (7205759403792793 / 72057594037927936 * 1000) = 7036874417766399 / 70368744177664"
    using fl_normal[of 6 "7205759403792793 / 72057594037927936 * 1000" 0]
    by (simp add: roundHalfEven_def)
  have c: "fl (1000 + 7036874417766399 / 70368744177664) = 1100"
    using fl_normal[of 10 "1000 + 7036874417766399 / 70368744177664" 0]
    by (simp add: roundHalfEven_def)
  have m: "min (1000 * 2 ^ (1 - 1)) (10000::real) = 1000" by simp
  show ?thesis
    unfolding totalDelay_def Let_def backoff_default[OF DEFAULT_OPTIONS_fields(2,4,3)] a m b c ..
qed

text \<open>
  The lower bound of the claim as stated, \<open>2^(k-2) * 1000\<close>, exceeds the cap from \<open>k = 6\<close>
  on: with \<open>maxAttempts = 6\<close> the fifth sleep, before attempt 6, is 10000 ms, below 16000.
\<close>

theorem finalDelay_capped_below_claimed_bound:
  "sleeps (execute (\<lambda>i. Inl err503 :: thrown + unit) (\<lambda>k. 0)
     (no_options\<lparr>opt_maxAttempts := Some 6\<rparr>)) ! (6 - 2) = Some 10000 \<and>
   finalDelay DEFAULT_OPTIONS (6 - 1) 0 err503 = Inr (Some 10000) \<and>
   \<not> (2 ^ (6 - 2) * 1000 \<le> (10000::real))"
  unfolding execute_def
  by (simp add: merge_options_def no_options_def DEFAULT_OPTIONS_def err503_def
      default_retryCondition_def finalDelay_def retryAfterHeader_def totalDelay_zero)

section \<open>Properties of the JSON parser\<close>

declare parse_value.simps [simp del] parse_elements.simps [simp del] parse_members.simps [simp del]

lemma skip_ws_le: "length (skip_ws s) \<le> length s"
  unfolding skip_ws_def by (rule length_dropWhile_le)

lemma map_option_pair: "map_option (\<lambda>(a, r). (f a, g r)) x = Some (u, v) \<longleftrightarrow> (\<exists>a r. x = Some (a, r) \<and> u = f a \<and> v = g r)"
  by (cases x) auto

lemma parse_chars_shorter: "parse_chars s = Some (str, r) \<Longrightarrow> length r < length s"
proof (induction s arbitrary: str r rule: parse_chars.induct)
  case 1
  then show ?case by simp
next
  case (2 c cs)
  show ?case
  proof (cases "c = CHR 0x22")
    case True
    with 2(4) show ?thesis by simp
  next
    case nq: False
    show ?thesis
    proof (cases "c = CHR 0x5C")
      case bs: True
      show ?thesis
      proof (cases cs)
        case Nil
        with 2(4) nq bs show ?thesis by simp
      next
        case (Cons e es)
        show ?thesis
        proof (cases "e = CHR ''u''")
          case True
          from 2(4) nq bs Cons True obtain n str' where
            h: "hex4 (take 4 es) = Some n" and p: "parse_chars (drop 4 es) = Some (str', r)"
            by (auto simp: map_option_pair split: option.splits)
          have "length r < length (drop 4 es)"
            using 2(1)[OF nq bs Cons True h p] .
          then show ?thesis using Cons by simp
        next
          case False
          from 2(4) nq bs Cons False obtain x str' where
            u: "unescape e = Some x" and p: "parse_chars es = Some (str', r)"
            by (auto simp: map_option_pair split: option.splits)
          have "length r < length es"
            using 2(2)[OF nq bs Cons False u p] .
          then show ?thesis using Cons by simp
        qed
      qed
    next
      case nb: False
      from 2(4) nq nb obtain str' where
        c: "\<not> (of_char c :: nat) < 32" and p: "parse_chars cs = Some (str', r)"
        by (auto simp: map_option_pair split: if_splits)
      have "length r < length cs"
        using 2(3)[OF nq nb c p] .
      then show ?thesis by simp
    qed
  qed
qed


lemma digits1_shorter: "digits1 s = Some (ds, r) \<Longrightarrow> length r < length s"
proof -
  assume a: "digits1 s = Some (ds, r)"
  then have t: "takeWhile isDigit s \<noteq> []" and r: "r = dropWhile isDigit s"
    by (auto simp: digits1_def Let_def split: if_splits)
  have "length (takeWhile isDigit s) + length (dropWhile isDigit s) = length s"
    by (metis length_append takeWhile_dropWhile_id)
  with t r show ?thesis by (cases "takeWhile isDigit s") auto
qed

lemma parse_int_part_shorter: "parse_int_part s = Some (x, r) \<Longrightarrow> length r < length s"
  by (cases s) (auto simp: parse_int_part_def split: if_splits dest: digits1_shorter)

lemma parse_frac_le: "parse_frac s = Some (x, r) \<Longrightarrow> length r \<le> length s"
  by (cases s) (auto simp: parse_frac_def map_option_pair split: if_splits dest!: digits1_shorter)

lemma parse_exp_le: "parse_exp s = Some (x, r) \<Longrightarrow> length r \<le> length s"
  by (cases s) (auto simp: parse_exp_def map_option_pair split: if_splits list.splits dest!: digits1_shorter)

lemma parse_number_shorter: "parse_number s = Some (x, r) \<Longrightarrow> length r < length s"
proof -
  assume a: "parse_number s = Some (x, r)"
  define s1 where "s1 = (case s of [] \<Rightarrow> s | c # cs \<Rightarrow> if c = CHR ''-'' then cs else s)"
  have s1: "length s1 \<le> length s" by (auto simp: s1_def split: list.splits)
  from a obtain ip s2 fp s3 ep where
    i: "parse_int_part s1 = Some (ip, s2)" and f: "parse_frac s2 = Some (fp, s3)"
    and e: "parse_exp s3 = Some (ep, r)"
    by (auto simp: parse_number_def s1_def Let_def split: list.splits if_splits option.splits)
  from parse_int_part_shorter[OF i] parse_frac_le[OF f] parse_exp_le[OF e] s1
  show ?thesis by simp
qed

lemma parse_literal_shorter: "parse_literal s = Some (v, r) \<Longrightarrow> length r < length s"
  by (auto simp: parse_literal_def prefix_def map_option_pair split: if_splits dest!: parse_number_shorter)

lemma parse_progress:
  "\<forall>v r. parse_value s = Some (v, r) \<longrightarrow> length r < length s"
  "\<forall>vs r. parse_elements s1 = Some (vs, r) \<longrightarrow> length r < length s1"
  "\<forall>ms r. parse_members s2 = Some (ms, r) \<longrightarrow> length r < length s2"
proof (induction s and s1 and s2 rule: parse_value_parse_elements_parse_members.induct)
  case (1 s)
  show ?case
  proof (intro allI impI)
    fix v r
    assume a: "parse_value s = Some (v, r)"
    show "length r < length s"
    proof (cases "skip_ws s")
      case Nil
      with a show ?thesis by (subst (asm) parse_value.simps) simp
    next
      case (Cons c cs)
      have cs: "length cs < length s" using Cons by (rule skip_ws_Cons)
      have s': "length (c # cs) \<le> length s" using skip_ws_le[of s] Cons by simp
      consider (obj) "c = CHR ''{''" | (arr) "c \<noteq> CHR ''{''" "c = CHR ''[''"
        | (str) "c \<noteq> CHR ''{''" "c \<noteq> CHR ''[''" "c = CHR 0x22"
        | (lit) "c \<noteq> CHR ''{''" "c \<noteq> CHR ''[''" "c \<noteq> CHR 0x22"
        by blast
      then show ?thesis
      proof cases
        case obj
        show ?thesis
        proof (cases "skip_ws cs")
          case Nil
          with a Cons obj show ?thesis by (subst (asm) parse_value.simps) simp
        next
          case inner: (Cons d ds)
          have ds: "length ds < length cs" using inner by (rule skip_ws_Cons)
          show ?thesis
          proof (cases "d = CHR ''}''")
            case True
            with a Cons obj inner have "r = skip_ws ds"
              by (subst (asm) parse_value.simps) simp
            then show ?thesis using skip_ws_le[of ds] ds cs by simp
          next
            case False
            with a Cons obj inner obtain ms r' where
              m: "parse_members cs = Some (ms, r')" and r: "r = skip_ws r'"
              by (subst (asm) parse_value.simps) (auto simp: map_option_pair)
            have "length r' < length cs"
              using 1(1)[OF Cons obj inner False] m by blast
            then show ?thesis using r skip_ws_le[of r'] cs by simp
          qed
        qed
      next
        case arr
        show ?thesis
        proof (cases "skip_ws cs")
          case Nil
          with a Cons arr show ?thesis by (subst (asm) parse_value.simps) simp
        next
          case inner: (Cons d ds)
          have ds: "length ds < length cs" using inner by (rule skip_ws_Cons)
          show ?thesis
          proof (cases "d = CHR '']''")
            case True
            with a Cons arr inner have "r = skip_ws ds"
              by (subst (asm) parse_value.simps) simp
            then show ?thesis using skip_ws_le[of ds] ds cs by simp
          next
            case False
            with a Cons arr inner obtain vs r' where
              m: "parse_elements cs = Some (vs, r')" and r: "r = skip_ws r'"
              by (subst (asm) parse_value.simps) (auto simp: map_option_pair)
            have "length r' < length cs"
              using 1(2)[OF Cons arr(1) arr(2) inner False] m by blast
            then show ?thesis using r skip_ws_le[of r'] cs by simp
          qed
        qed
      next
        case str
        with a Cons obtain x r' where
          m: "parse_chars cs = Some (x, r')" and r: "r = skip_ws r'"
          by (subst (asm) parse_value.simps) (auto simp: map_option_pair)
        from parse_chars_shorter[OF m] show ?thesis
          using r skip_ws_le[of r'] cs by simp
      next
        case lit
        with a Cons obtain r' where
          m: "parse_literal (c # cs) = Some (v, r')" and r: "r = skip_ws r'"
          by (subst (asm) parse_value.simps) (auto simp: map_option_pair)
        from parse_literal_shorter[OF m] show ?thesis
          using r skip_ws_le[of r'] s' by simp
      qed
    qed
  qed
next
  case (2 s)
  show ?case
  proof (intro allI impI)
    fix vs r
    assume a: "parse_elements s = Some (vs, r)"
    then obtain v r0 where v: "parse_value s = Some (v, r0)" and g: "length r0 < length s"
      by (subst (asm) parse_elements.simps) (auto split: option.splits if_splits)
    show "length r < length s"
    proof (cases r0)
      case Nil
      with a v g show ?thesis by (subst (asm) parse_elements.simps) simp
    next
      case (Cons c cs)
      show ?thesis
      proof (cases "c = CHR '',''")
        case True
        with a v g Cons obtain vs' where m: "parse_elements cs = Some (vs', r)"
          by (subst (asm) parse_elements.simps) (auto simp: map_option_pair)
        have "length r < length cs"
          using 2(2)[OF v _ g Cons True] m by blast
        then show ?thesis using g Cons by simp
      next
        case False
        with a v g Cons have "r = cs"
          by (subst (asm) parse_elements.simps) (auto split: if_splits)
        then show ?thesis using g Cons by simp
      qed
    qed
  qed
next
  case (3 s)
  show ?case
  proof (intro allI impI)
    fix ms r
    assume a: "parse_members s = Some (ms, r)"
    then obtain q ks k r0 col r1 v r2 where
      s: "skip_ws s = q # ks" and q: "q = CHR 0x22" and k: "parse_chars ks = Some (k, r0)"
      and c: "skip_ws r0 = col # r1" and col: "col = CHR '':''" and g1: "length r1 < length s"
      and v: "parse_value r1 = Some (v, r2)" and g2: "length r2 < length r1"
      by (subst (asm) parse_members.simps)
         (auto split: list.splits if_splits option.splits prod.splits)
    show "length r < length s"
    proof (cases r2)
      case Nil
      with a s q k c col g1 v g2 show ?thesis by (subst (asm) parse_members.simps) simp
    next
      case (Cons d ds)
      show ?thesis
      proof (cases "d = CHR '',''")
        case True
        with a s q k c col g1 v g2 Cons obtain ms' where m: "parse_members ds = Some (ms', r)"
          by (subst (asm) parse_members.simps) (auto simp: map_option_pair)
        have "length r < length ds"
          using 3(2)[OF s q k _ c _ v _ g2 Cons True] col g1 m by blast
        then show ?thesis using g1 g2 Cons by simp
      next
        case False
        with a s q k c col g1 v g2 Cons have "r = ds"
          by (subst (asm) parse_members.simps) (auto split: if_splits)
        then show ?thesis using g1 g2 Cons by simp
      qed
    qed
  qed
qed

text \<open>
  Hence the length checks in \<open>parse_elements\<close> and \<open>parse_members\<close> never fail, and the two
  functions are the plain recursive descent over the members and the elements.
\<close>

lemma parse_elements_plain:
  "parse_elements s =
     (case parse_value s of
        None \<Rightarrow> None
      | Some (v, r) \<Rightarrow>
          (case r of
             [] \<Rightarrow> None
           | c # cs \<Rightarrow>
               if c = CHR '','' then map_option (\<lambda>(vs, r'). (v # vs, r')) (parse_elements cs)
               else if c = CHR '']'' then Some ([v], cs)
               else None))"
proof (cases "parse_value s")
  case None
  then show ?thesis by (subst parse_elements.simps) simp
next
  case (Some p)
  obtain v r where p: "p = (v, r)" by (cases p)
  have "length r < length s" using parse_progress(1)[of s] Some p by blast
  then show ?thesis using Some p by (subst parse_elements.simps) simp
qed

lemma parse_members_plain:
  "parse_members s =
     (case skip_ws s of
        [] \<Rightarrow> None
      | q # ks \<Rightarrow>
          if q = CHR 0x22 then
            (case parse_chars ks of
               None \<Rightarrow> None
             | Some (k, r0) \<Rightarrow>
                 (case skip_ws r0 of
                    [] \<Rightarrow> None
                  | col # r1 \<Rightarrow>
                      if col = CHR '':'' then
                        (case parse_value r1 of
                           None \<Rightarrow> None
                         | Some (v, r) \<Rightarrow>
                             (case r of
                                [] \<Rightarrow> None
                              | c # cs \<Rightarrow>
                                  if c = CHR '','' then
                                    map_option (\<lambda>(ms, r'). ((k, v) # ms, r')) (parse_members cs)
                                  else if c = CHR ''}'' then Some ([(k, v)], cs)
                                  else None))
                      else None))
          else None)"
proof -
  have g1: "length r1 < length s"
    if "skip_ws s = q # ks" "parse_chars ks = Some (k, r0)" "skip_ws r0 = col # r1"
    for q ks k r0 col r1
    using skip_ws_Cons[OF that(1)] parse_chars_shorter[OF that(2)] skip_ws_Cons[OF that(3)]
    by simp
  have g2: "length r < length r1" if "parse_value r1 = Some (v, r)" for r1 v r
    using parse_progress(1)[of r1] that by blast
  show ?thesis
    by (subst parse_members.simps)
       (auto split: list.splits option.splits simp: g1 g2)
qed

section \<open>Properties of the document reader\<close>

lemma includes_str_sublist: "includes_str s p = sublist p s"
  by (induction s) (auto simp: sublist_Cons_right)

lemma isPermissionError_spec: "isPermissionError (Err x) = permission_class x"
  by (auto simp: isPermissionError_def permission_class_def message_includes_def
      includes_str_sublist toLowerCase_def permission_phrases_def split: option.splits)

text \<open>
  C7. When the fetch (run through \<open>RetryManager.execute\<close>) fails with an error object,
  \<open>readDocument\<close> answers with the result of the local-markdown fallback exactly when the
  error is permission-class in the sense of the specification; every other error is
  returned as a failure response carrying its message, and the fallback is not run.
\<close>

theorem readDocument_fallback_iff_permission_error:
  assumes "outcome (execute operation random no_options) = Inl (Err x)"
    and "init = None \<or> (\<exists>r. init = Some r \<and> success r)"
  shows "(route (readDocument config cwd init operation random) = LocalFallback
            \<longleftrightarrow> permission_class x) \<and>
         (permission_class x \<longrightarrow>
            reply (readDocument config cwd init operation random) =
              Inr (fallbackToLocalMarkdown config cwd)) \<and>
         (\<not> permission_class x \<longrightarrow>
            route (readDocument config cwd init operation random) = FetchFailed \<and>
            reply (readDocument config cwd init operation random) =
              Inr \<lparr>success = False, data = None, error = error_message (Err x)\<rparr>)"
proof -
  have r: "readDocument config cwd init operation random = handle_read_error config cwd (Err x)"
    using assms by (auto simp: readDocument_def)
  show ?thesis
    unfolding r
    by (simp add: handle_read_error_def isPermissionError_spec logError_def failure_def)
qed

lemma fetch_fails_once:
  "default_retryCondition (Err e) = Inr False \<Longrightarrow>
   outcome (execute (\<lambda>i. Inl (Err e) :: thrown + document) random no_options) = Inl (Err e)"
  unfolding execute_def
  by (subst retry_loop.simps) (simp add: merge_no_options DEFAULT_OPTIONS_def)

theorem readDocument_fallback_iff_permission_error_witness:
  "permission_class err403 \<and>
   route (readDocument sample_config docs_layout None (\<lambda>i. Inl (Err err403)) (\<lambda>k. 0))
     = LocalFallback \<and>
   reply (readDocument sample_config docs_layout None (\<lambda>i. Inl (Err err403)) (\<lambda>k. 0))
     = Inr (fallbackToLocalMarkdown sample_config docs_layout) \<and>
   \<not> permission_class errNotFound \<and>
   route (readDocument sample_config docs_layout None (\<lambda>i. Inl (Err errNotFound)) (\<lambda>k. 0))
     = FetchFailed \<and>
   reply (readDocument sample_config docs_layout None (\<lambda>i. Inl (Err errNotFound)) (\<lambda>k. 0))
     = Inr \<lparr>success = False, data = None,
            error = Some (Text ''getaddrinfo ENOTFOUND docs.googleapis.com'')\<rparr>"
proof -
  have p: "permission_class err403"
    by code_simp
  have q: "\<not> permission_class errNotFound"
    by code_simp
  have a: "outcome (execute (\<lambda>i. Inl (Err err403) :: thrown + document) (\<lambda>k. 0) no_options)
      = Inl (Err err403)"
    by (rule fetch_fails_once) (simp add: default_retryCondition_def err403_def)
  have b: "outcome (execute (\<lambda>i. Inl (Err errNotFound) :: thrown + document) (\<lambda>k. 0) no_options)
      = Inl (Err errNotFound)"
    by (rule fetch_fails_once) (simp add: default_retryCondition_def errNotFound_def)
  have m: "error_message (Err errNotFound) = Some (Text ''getaddrinfo ENOTFOUND docs.googleapis.com'')"
    by (simp add: error_message_def errNotFound_def)
  show ?thesis
    using p q m
      readDocument_fallback_iff_permission_error[OF a, of None sample_config docs_layout]
      readDocument_fallback_iff_permission_error[OF b, of None sample_config docs_layout]
    by simp
qed

text \<open>
  C8. A node that is only a table of two rows with two cells each, whose cells flatten to
  \<open>cellA\<close> and \<open>cellB\<close>, flattens to the line \<open>| cellA | cellB |\<close> twice (the cell texts
  trimmed) and one empty line after them.
\<close>

theorem processElement_table_2x2:
  assumes "processChildren (Some c11) = Inr cellA" "processChildren (Some c12) = Inr cellB"
    and "processChildren (Some c21) = Inr cellA" "processChildren (Some c22) = Inr cellB"
  shows "processElement (Some (Element None None
           (Some (Table (Some [TableRow (Some [TableCell (Some c11), TableCell (Some c12)]),
                               TableRow (Some [TableCell (Some c21), TableCell (Some c22)])])))
           None None)) =
         Inr (''| '' @ trim cellA @ '' | '' @ trim cellB @ '' |'' @ [NL] @
              ''| '' @ trim cellA @ '' | '' @ trim cellB @ '' |'' @ [NL] @ [NL])"
  using assms
  by (simp add: mapE_def appendE_def consE_def text_run_def list_marker_def row_line_def join_def
      split: sum.splits)

theorem processElement_table_2x2_witness:
  "processElement (Some (Element None None
     (Some (Table (Some [TableRow (Some [TableCell (Some (text_cell '' cellA'')),
                                         TableCell (Some (text_cell ''cellB''))]),
                         TableRow (Some [TableCell (Some (text_cell '' cellA'')),
                                         TableCell (Some (text_cell ''cellB''))])])))
     None None)) =
   Inr (''| cellA | cellB |'' @ [NL] @ ''| cellA | cellB |'' @ [NL] @ [NL])"
proof -
  have a: "processChildren (Some (text_cell '' cellA'')) = Inr ('' cellA'' @ [NL])"
    by code_simp
  have b: "processChildren (Some (text_cell ''cellB'')) = Inr (''cellB'' @ [NL])"
    by code_simp
  have ta: "trim ('' cellA'' @ [NL]) = ''cellA''"
    by code_simp
  have tb: "trim (''cellB'' @ [NL]) = ''cellB''"
    by code_simp
  show ?thesis
    using processElement_table_2x2[OF a b a b] unfolding ta tb by simp
qed

lemma scanEntries_file:
  "(item, File mtime content) \<in> set es \<Longrightarrow> toLowerCase (extname item) = ''.md'' \<Longrightarrow>
   path_join d item \<in> set (scanEntries d es)"
  by (induction d es rule: scanEntries.induct) auto

lemma scanEntries_dir:
  "(sub, Dir entries) \<in> set es \<Longrightarrow> \<not> startsWith sub ''.'' \<Longrightarrow> sub \<noteq> ''node_modules'' \<Longrightarrow>
   set (scanEntries (path_join d sub) entries) \<subseteq> set (scanEntries d es)"
  by (induction d es rule: scanEntries.induct) auto

lemma path_join_dot_docs: "path_join ''./docs'' item = path_join ''docs'' item"
proof (cases "item = []")
  case True
  then show ?thesis by (simp add: path_join_def path_normalize_def join_def)
next
  case False
  then show ?thesis by (simp add: path_join_def path_normalize_def)
qed

lemma path_join_cwd_docs: "path_join ''.'' ''docs'' = ''docs''"
  by (simp add: path_join_def path_normalize_def join_def)

lemma resolve_cwd: "resolve (Dir entries) ''.'' = Some (Dir entries)"
  by (simp add: resolve_def)

lemma resolve_docs:
  "map_of entries ''docs'' = Some node \<Longrightarrow> resolve (Dir entries) ''./docs'' = Some node"
  by (simp add: resolve_def)

text \<open>
  C10. The search roots overlap: \<open>.\<close> is scanned recursively (only hidden directories and
  \<open>node_modules\<close> are skipped) and \<open>./docs\<close> is scanned again as a root of its own, and
  \<open>path.join\<close> gives a file in \<open>docs\<close> the same path in both scans. So whenever the working
  directory has a directory \<open>docs\<close> that holds a file with the extension \<open>.md\<close>, the list
  that \<open>findMarkdownFiles\<close> returns has a path more than once.
\<close>

theorem findMarkdownFiles_duplicates:
  assumes "map_of entries ''docs'' = Some (Dir sub)"
    and "(item, File mtime content) \<in> set sub"
    and "toLowerCase (extname item) = ''.md''"
  shows "\<not> distinct (findMarkdownFiles (Dir entries) searchPaths)"
proof -
  let ?f = "path_join ''docs'' item"
  let ?cwd = "Dir entries"
  have d: "(''docs'', Dir sub) \<in> set entries"
    using assms(1) by (rule map_of_SomeD)
  have "path_join (path_join ''.'' ''docs'') item
      \<in> set (scanEntries (path_join ''.'' ''docs'') sub)"
    using assms(2,3) by (rule scanEntries_file)
  moreover have "set (scanEntries (path_join ''.'' ''docs'') sub)
      \<subseteq> set (scanEntries ''.'' entries)"
    using d by (rule scanEntries_dir) (simp_all add: startsWith_def)
  ultimately have a: "?f \<in> set (scanEntries ''.'' entries)"
    unfolding path_join_cwd_docs by blast
  have b: "?f \<in> set (scanEntries ''./docs'' sub)"
    using scanEntries_file[OF assms(2,3), of "''./docs''"] unfolding path_join_dot_docs .
  have c: "collectMarkdownFiles ?cwd searchPaths =
      scanEntries ''.'' entries @ scanEntries ''./docs'' sub @
      collectMarkdownFiles ?cwd [''./documents'', ''./markdown'', ''./content'', ''./.cache'']"
    using resolve_docs[OF assms(1)]
    by (simp add: collectMarkdownFiles_def searchPaths_def existsSync_def resolve_cwd
        scanDirectoryForMarkdown_def)
  have "\<not> distinct (collectMarkdownFiles ?cwd searchPaths)"
    unfolding c using a b by auto
  then show ?thesis by (simp add: findMarkdownFiles_def)
qed

theorem findMarkdownFiles_duplicates_witness:
  "findMarkdownFiles docs_layout searchPaths = [''docs/a.md'', ''docs/a.md''] \<and>
   \<not> distinct (findMarkdownFiles docs_layout searchPaths)"
proof -
  have e: "findMarkdownFiles docs_layout searchPaths = [''docs/a.md'', ''docs/a.md'']"
    by code_simp
  have t: "toLowerCase (extname ''a.md'') = ''.md''"
    by code_simp
  have "\<not> distinct (findMarkdownFiles (Dir [(''docs'', Dir [(''a.md'', File 1000 ''# A'')])])
      searchPaths)"
    using findMarkdownFiles_duplicates[of "[(''docs'', Dir [(''a.md'', File 1000 ''# A'')])]"
        "[(''a.md'', File 1000 ''# A'')]" "''a.md''" 1000 "''# A''"] t
    by simp
  then show ?thesis using e by (simp add: docs_layout_def)
qed




section \<open>Properties of the card recovery\<close>

lemma execute_first_call:
  "operation 1 = Inr v \<Longrightarrow> outcome (execute operation random no_options) = Inr v"
  unfolding execute_def
  by (subst retry_loop.simps) (simp add: merge_no_options DEFAULT_OPTIONS_def)

lemma GepetoResponseSchema_completion: "GepetoResponseSchema (Some (completion c)) = Inr [c]"
  by (simp add: GepetoResponseSchema_def completion_def getProp_def z_array_def z_content_def
      z_string_def)

lemma generateBDDCards_completion:
  assumes "operation 1 = Inr (completion content)" "content \<noteq> []"
  shows "generateBDDCards operation random =
     (case recover content of
        Inl m \<Rightarrow> Inr (failure (Some m))
      | Inr cards \<Rightarrow> Inr \<lparr>success = True, data = Some cards, error = None\<rparr>)"
  using assms
  by (simp add: generateBDDCards_def execute_first_call GepetoResponseSchema_completion)











text \<open>
  C4, as amended. When the candidate fails the strict parse and the repaired candidate
  fails it too, \<open>generateBDDCards\<close> does not reject: it returns the failure response whose
  \<open>error\<close> is the message of the error the second attempt threw (the SyntaxError of
  \<open>JSON.parse\<close> on the repaired text, or a ZodError), and nothing else.
\<close>

theorem generateBDDCards_repair_failure:
  assumes "operation 1 = Inr (completion content)" "content \<noteq> []"
    and "strictParse (candidate content) = Inl m1"
    and "strictParse (attemptJsonFix (candidate content)) = Inl m2"
  shows "generateBDDCards operation random =
           Inr \<lparr>success = False, data = None, error = Some m2\<rparr> \<and>
         (m2 = SyntaxErrorMessage (attemptJsonFix (candidate content)) \<or>
          (\<exists>issues. m2 = ZodErrorMessage issues))"
proof -
  have "recover content = Inl m2"
    using assms(3,4) by (simp add: recover_def Let_def)
  then have a: "generateBDDCards operation random =
      Inr \<lparr>success = False, data = None, error = Some m2\<rparr>"
    using generateBDDCards_completion[of operation content random] assms(1,2)
    by (simp add: failure_def)
  have b: "m2 = SyntaxErrorMessage (attemptJsonFix (candidate content)) \<or>
      (\<exists>issues. m2 = ZodErrorMessage issues)"
    using assms(4) by (auto simp: strictParse_def split: option.splits sum.splits)
  show ?thesis using a b by simp
qed

theorem generateBDDCards_repair_failure_witness:
  "generateBDDCards (\<lambda>i. Inr (completion ''x['')) (\<lambda>k. 0) =
     Inr \<lparr>success = False, data = None, error = Some (SyntaxErrorMessage ''['')\<rparr>"
proof -
  have a: "strictParse (candidate ''x['') = Inl (SyntaxErrorMessage ''x['')"
    by code_simp
  have b: "strictParse (attemptJsonFix (candidate ''x['')) = Inl (SyntaxErrorMessage ''['')"
    by code_simp
  show ?thesis
    using generateBDDCards_repair_failure[where operation = "\<lambda>i. Inr (completion ''x['')"
        and content = "''x[''" and random = "\<lambda>k. 0", OF _ _ a b]
    by simp
qed

text \<open>
  The claim as stated fails: the failure response has no field for the candidate or the
  repaired text, and two replies with different candidates, \<open>x[\<close> and \<open>y[\<close>, that are
  repaired to the same text get the same response.
\<close>

theorem generateBDDCards_failure_forgets_candidate:
  "generateBDDCards (\<lambda>i. Inr (completion ''x['')) (\<lambda>k. 0) =
     Inr \<lparr>success = False, data = None, error = Some (SyntaxErrorMessage ''['')\<rparr> \<and>
   generateBDDCards (\<lambda>i. Inr (completion ''y['')) (\<lambda>k. 0) =
     Inr \<lparr>success = False, data = None, error = Some (SyntaxErrorMessage ''['')\<rparr> \<and>
   candidate ''x['' = ''x['' \<and> candidate ''y['' = ''y['' \<and>
   attemptJsonFix ''x['' = ''['' \<and> attemptJsonFix ''y['' = ''[''"
proof -
  have c: "candidate ''x['' = ''x['' \<and> candidate ''y['' = ''y['' \<and>
      attemptJsonFix ''x['' = ''['' \<and> attemptJsonFix ''y['' = ''[''"
    by code_simp
  have x: "recover ''x['' = Inl (SyntaxErrorMessage ''['')"
    by code_simp
  have y: "recover ''y['' = Inl (SyntaxErrorMessage ''['')"
    by code_simp
  show ?thesis
    using generateBDDCards_completion[of "\<lambda>i. Inr (completion ''x['')" "''x[''" "\<lambda>k. 0"]
      generateBDDCards_completion[of "\<lambda>i. Inr (completion ''y['')" "''y[''" "\<lambda>k. 0"] c
    by (simp add: x y failure_def)
qed

text \<open>
  C5. For the reply \<open>Here you go:\<close> followed by the fenced block with
  \<open>[{summary: "Test", description: "d", acceptanceCriteria: ["a"],}]\<close>, the fenced block is
  the candidate, its strict parse throws, the repair removes the trailing comma and quotes
  the three keys, and the result is exactly one card, with the summary \<open>Test\<close>.
\<close>

theorem generateBDDCards_repair_scenario:
  "candidate reply_fenced =
     ''[{summary: \"Test\", description: \"d\", acceptanceCriteria: [\"a\"],}]'' \<and>
   JSON_parse (candidate reply_fenced) = None \<and>
   attemptJsonFix (candidate reply_fenced) =
     ''[{\"summary\": \"Test\", \"description\": \"d\", \"acceptanceCriteria\": [\"a\"]}]'' \<and>
   generateBDDCards (\<lambda>i. Inr (completion reply_fenced)) random =
     Inr \<lparr>success = True, data = Some [simple_card ''Test''], error = None\<rparr> \<and>
   summary (simple_card ''Test'') = ''Test''"
proof -
  have a: "candidate reply_fenced =
      ''[{summary: \"Test\", description: \"d\", acceptanceCriteria: [\"a\"],}]''"
    by code_simp
  have b: "JSON_parse (candidate reply_fenced) = None"
    by code_simp
  have c: "attemptJsonFix (candidate reply_fenced) =
      ''[{\"summary\": \"Test\", \"description\": \"d\", \"acceptanceCriteria\": [\"a\"]}]''"
    by code_simp
  have r: "recover reply_fenced = Inr [simple_card ''Test'']"
    by code_simp
  have n: "reply_fenced \<noteq> []"
    by (simp add: reply_fenced_def)
  have d: "generateBDDCards (\<lambda>i. Inr (completion reply_fenced)) random =
      Inr \<lparr>success = True, data = Some [simple_card ''Test''], error = None\<rparr>"
    using generateBDDCards_completion[of "\<lambda>i. Inr (completion reply_fenced)" reply_fenced random] n
    by (simp add: r)
  have e: "summary (simple_card ''Test'') = ''Test''"
    by (simp add: simple_card_def)
  show ?thesis using a b c d e by blast
qed

end
